theory Spec2Isabelle
  imports Main "HOL-Library.AList"
begin

section \<open>Provider pool and response orchestrator (ai.service.ts)\<close>

text \<open>
  The four backends of \<^verbatim>\<open>AIProviderType\<close>. The switch of \<^verbatim>\<open>loadProviders\<close> has one case
  per constructor; its \<^verbatim>\<open>default: continue\<close> has no value of this type to take.
\<close>

datatype AIProviderType = CLAUDE | GEMINI | GROQ | COHERE

text \<open>
  \<^verbatim>\<open>AIProviderConfig\<close>: the fields \<^verbatim>\<open>id\<close>, \<^verbatim>\<open>type\<close> and \<^verbatim>\<open>model\<close> carry a prefix, since
  those names are taken. The counters are Prisma integers, read here as \<open>int\<close>.
\<close>

record AIProviderConfig =
  cfg_id :: string
  cfg_type :: AIProviderType
  apiKey :: string
  cfg_model :: "string option"
  dailyLimit :: int
  usedToday :: int
  priority :: int

record AIGenerationResult =
  content :: string
  providerId :: string
  providerType :: AIProviderType
  inputTokens :: int
  outputTokens :: int
  latencyMs :: int

text \<open>
  What the remote API of a backend answers to one \<^verbatim>\<open>generate\<close> call: it throws, or it
  delivers the text, the two token counts and the latency.
\<close>

datatype api_outcome = ApiError string | ApiOk string int int int

text \<open>
  \<^verbatim>\<open>provider.generate\<close>: every provider class wraps the answer of its API into a result
  that carries \<^verbatim>\<open>this.config.id\<close> and the tag of the class; an exception of the API
  propagates.
\<close>

fun provider_generate :: "AIProviderType \<Rightarrow> AIProviderConfig \<Rightarrow> api_outcome \<Rightarrow> string + AIGenerationResult" where
  "provider_generate p config (ApiError e) = Inl e"
| "provider_generate p config (ApiOk txt tin tout ms) =
     Inr \<lparr>content = txt, providerId = cfg_id config, providerType = p,
          inputTokens = tin, outputTokens = tout, latencyMs = ms\<rparr>"

text \<open>
  The service: \<^verbatim>\<open>providerConfigs\<close> is the array in the order of the query, \<^verbatim>\<open>providers\<close>
  the \<^verbatim>\<open>Map\<close> from a config id to the provider object built for it (its class).
\<close>

record AIService =
  providerConfigs :: "AIProviderConfig list"
  providers :: "string \<rightharpoonup> AIProviderType"

definition maxRetries :: nat where
  "maxRetries = 3"

text \<open>
  \<^verbatim>\<open>loadProviders\<close>, from the rows that
  \<^verbatim>\<open>findMany({where: {isActive: true}, orderBy: {priority: 'desc'}})\<close> returned: each row is
  pushed as a config and its provider is stored under its id (a later row with the
  same id replaces the earlier provider).
\<close>

definition loadProviders :: "AIProviderConfig list \<Rightarrow> AIService" where
  "loadProviders rows =
     \<lparr>providerConfigs = rows,
      providers = fold (\<lambda>p m. m(cfg_id p \<mapsto> cfg_type p)) rows Map.empty\<rparr>"

text \<open>
  \<^verbatim>\<open>getAvailableProvider\<close>: the scan of the array from its head. The answer is the position
  of the config in the array (the source returns the object itself, which the caller
  then mutates in place) and the provider stored under its id; a config under quota
  whose id has no provider is passed over.
\<close>

fun scan_configs :: "(string \<rightharpoonup> AIProviderType) \<Rightarrow> AIProviderConfig list \<Rightarrow> nat \<Rightarrow> (nat \<times> AIProviderType) option" where
  "scan_configs pm [] i = None"
| "scan_configs pm (config # rest) i =
     (if usedToday config < dailyLimit config
      then (case pm (cfg_id config) of
              Some provider \<Rightarrow> Some (i, provider)
            | None \<Rightarrow> scan_configs pm rest (Suc i))
      else scan_configs pm rest (Suc i))"

definition getAvailableProvider :: "AIService \<Rightarrow> (nat \<times> AIProviderType) option" where
  "getAvailableProvider s = scan_configs (providers s) (providerConfigs s) 0"

datatype ai_error =
    AllProvidersExhausted   \<comment> \<open>\<^verbatim>\<open>'All AI providers have reached their daily limits'\<close>\<close>
  | ProviderError string    \<comment> \<open>\<^verbatim>\<open>lastError\<close>, the exception of the last provider tried\<close>
  | GenerationFailed        \<comment> \<open>\<^verbatim>\<open>'AI generation failed'\<close>\<close>
  | PromptError string      \<comment> \<open>\<^verbatim>\<open>buildSystemPrompt\<close> threw before the loop\<close>

text \<open>
  The world a call of \<^verbatim>\<open>generateResponse\<close> runs in: whether \<^verbatim>\<open>buildSystemPrompt\<close> (three
  reads of the persistence layer) returns, and what the API of the provider invoked at
  each attempt answers.
\<close>

record backend =
  promptResult :: "string + string"
  invoke :: "nat \<Rightarrow> AIProviderConfig \<Rightarrow> api_outcome"

text \<open>
  One invocation of the loop, as the log lines of the source record it: the position of
  the config that was selected, and the exception if the provider threw.
\<close>

type_synonym invocation = "nat \<times> string option"

definition set_usedToday :: "nat \<Rightarrow> int \<Rightarrow> AIService \<Rightarrow> AIService" where
  "set_usedToday i v s =
     s\<lparr>providerConfigs := (providerConfigs s)[i := (providerConfigs s ! i)\<lparr>usedToday := v\<rparr>]\<rparr>"

text \<open>
  The loop \<^verbatim>\<open>for (attempt = 0; attempt < maxRetries; attempt++)\<close>, by recursion on the
  attempts that remain. \<^verbatim>\<open>recordUsage\<close> writes to the persistence layer only and swallows
  its own failure, so it leaves no mark on the service. After the last attempt
  \<^verbatim>\<open>throw lastError || new Error('AI generation failed')\<close>.
\<close>

fun retry_loop :: "nat \<Rightarrow> nat \<Rightarrow> (nat \<Rightarrow> AIProviderConfig \<Rightarrow> api_outcome) \<Rightarrow> string option \<Rightarrow> AIService
    \<Rightarrow> AIService \<times> invocation list \<times> (ai_error + AIGenerationResult)" where
  "retry_loop 0 attempt api lastError s =
     (s, [], Inl (case lastError of Some e \<Rightarrow> ProviderError e | None \<Rightarrow> GenerationFailed))"
| "retry_loop (Suc n) attempt api lastError s =
     (case getAvailableProvider s of
        None \<Rightarrow> (s, [], Inl AllProvidersExhausted)
      | Some (i, provider) \<Rightarrow>
          (let config = providerConfigs s ! i in
           case provider_generate provider config (api attempt config) of
             Inr result \<Rightarrow>
               (set_usedToday i (usedToday config + 1) s, [(i, None)], Inr result)
           | Inl e \<Rightarrow>
               (case retry_loop n (Suc attempt) api (Some e) (set_usedToday i (dailyLimit config) s) of
                  (s', tr, r) \<Rightarrow> (s', (i, Some e) # tr, r))))"

definition generateResponse :: "backend \<Rightarrow> AIService \<Rightarrow> AIService \<times> invocation list \<times> (ai_error + AIGenerationResult)" where
  "generateResponse be s =
     (case promptResult be of
        Inl e \<Rightarrow> (s, [], Inl (PromptError e))
      | Inr systemPrompt \<Rightarrow> retry_loop maxRetries 0 (invoke be) None s)"

text \<open>Calls of \<^verbatim>\<open>generateResponse\<close> one after the other, each in its own world.\<close>

fun generate_all :: "backend list \<Rightarrow> AIService \<Rightarrow> AIService \<times> (ai_error + AIGenerationResult) list" where
  "generate_all [] s = (s, [])"
| "generate_all (be # bes) s =
     (case generateResponse be s of
        (s', tr, r) \<Rightarrow> (case generate_all bes s' of (s'', rs) \<Rightarrow> (s'', r # rs)))"


subsection \<open>Calls that overlap\<close>










subsection \<open>Notions the statements about the orchestrator use\<close>

text \<open>A config can be selected: it is under its quota and a provider is stored for its id.\<close>

definition available :: "(string \<rightharpoonup> AIProviderType) \<Rightarrow> AIProviderConfig \<Rightarrow> bool" where
  "available pm c = (usedToday c < dailyLimit c \<and> pm (cfg_id c) \<noteq> None)"

text \<open>
  The pool as \<^verbatim>\<open>loadProviders\<close> builds it from a query ordered by descending priority:
  the array is in that order and every config has its provider.
\<close>

definition priority_ordered :: "AIService \<Rightarrow> bool" where
  "priority_ordered s \<longleftrightarrow>
     sorted_wrt (\<lambda>a b. priority b \<le> priority a) (providerConfigs s) \<and>
     (\<forall>c \<in> set (providerConfigs s). providers s (cfg_id c) \<noteq> None)"

text \<open>What one run of the retry loop leaves behind, from the service \<open>s\<close> to \<open>s'\<close>.\<close>

definition loop_post :: "AIService \<Rightarrow> AIService \<Rightarrow> invocation list \<Rightarrow> bool" where
  "loop_post s s' tr \<longleftrightarrow>
     length (providerConfigs s') = length (providerConfigs s) \<and>
     providers s' = providers s \<and>
     distinct (map fst tr) \<and>
     (\<forall>k < length (providerConfigs s).
        cfg_id (providerConfigs s' ! k) = cfg_id (providerConfigs s ! k) \<and>
        cfg_type (providerConfigs s' ! k) = cfg_type (providerConfigs s ! k) \<and>
        dailyLimit (providerConfigs s' ! k) = dailyLimit (providerConfigs s ! k) \<and>
        priority (providerConfigs s' ! k) = priority (providerConfigs s ! k) \<and>
        usedToday (providerConfigs s' ! k) =
          (if (k, None) \<in> set tr then usedToday (providerConfigs s ! k) + 1
           else if k \<in> fst ` set tr then dailyLimit (providerConfigs s ! k)
           else usedToday (providerConfigs s ! k))) \<and>
     (\<forall>x \<in> set tr. fst x < length (providerConfigs s) \<and>
        usedToday (providerConfigs s ! fst x) < dailyLimit (providerConfigs s ! fst x))"

text \<open>A world in which the prompt is built and every provider invocation succeeds.\<close>

definition always_succeeds :: "backend \<Rightarrow> bool" where
  "always_succeeds be \<longleftrightarrow>
     (\<exists>p. promptResult be = Inr p) \<and> (\<forall>a c. \<exists>t i j m. invoke be a c = ApiOk t i j m)"

text \<open>Who served a call: the id of the provider in the result, or the error.\<close>

definition routed :: "ai_error + AIGenerationResult \<Rightarrow> ai_error + string" where
  "routed r = map_sum (\<lambda>e. e) providerId r"

text \<open>The pool of the scenario: priorities 30, 20, 10, a quota of 5 each, nothing used.\<close>

definition scenario_rows :: "AIProviderConfig list" where
  "scenario_rows =
     [\<lparr>cfg_id = ''p30'', cfg_type = CLAUDE, apiKey = ''k30'', cfg_model = None,
       dailyLimit = 5, usedToday = 0, priority = 30\<rparr>,
      \<lparr>cfg_id = ''p20'', cfg_type = GEMINI, apiKey = ''k20'', cfg_model = None,
       dailyLimit = 5, usedToday = 0, priority = 20\<rparr>,
      \<lparr>cfg_id = ''p10'', cfg_type = GROQ, apiKey = ''k10'', cfg_model = None,
       dailyLimit = 5, usedToday = 0, priority = 10\<rparr>]"

text \<open>Two concrete worlds: every provider answers; every provider throws its own id.\<close>

definition answering :: backend where
  "answering = \<lparr>promptResult = Inr ''prompt'', invoke = (\<lambda>a c. ApiOk ''hello'' 12 7 300)\<rparr>"

definition failing :: backend where
  "failing = \<lparr>promptResult = Inr ''prompt'', invoke = (\<lambda>a c. ApiError (cfg_id c))\<rparr>"



section \<open>Connection supervisor, ingestion and rate window (whatsapp.service.ts)\<close>

subsection \<open>Data\<close>

text \<open>
  Modelled from the spec: the union type \<^verbatim>\<open>WhatsAppAccountStatus\<close> of \<^verbatim>\<open>types/index.ts\<close>, a
  file that is not among the sources. The spec names the states \<^verbatim>\<open>CONNECTING\<close>,
  \<^verbatim>\<open>CONNECTED\<close> and \<^verbatim>\<open>DISCONNECTED\<close>, and the service assigns no other.
\<close>

datatype WhatsAppAccountStatus = CONNECTING | CONNECTED | DISCONNECTED

text \<open>
  Modelled from the spec: the union type \<^verbatim>\<open>MessageType\<close> of the same file. The spec lists
  the content kinds text, image, video, audio, document, sticker, location, contact and
  unsupported; \<^verbatim>\<open>parseMessage\<close> writes the first eight as upper-case literals.
\<close>

datatype MessageType =
  TEXT | IMAGE | VIDEO | AUDIO | DOCUMENT | STICKER | LOCATION | CONTACT | UNSUPPORTED

text \<open>
  \<^verbatim>\<open>WhatsAppInstance\<close>. The socket is a handle: the position of the Baileys socket in the
  list of all sockets ever opened (\<open>sockets\<close> below).
\<close>

record WhatsAppInstance =
  socket :: "nat option"
  accountId :: string
  status :: WhatsAppAccountStatus
  reconnectAttempts :: nat
  lastActivity :: int

text \<open>
  What the service does to a socket: \<^verbatim>\<open>connectAccount\<close> registers the three listeners, whose
  closures hold the \<^verbatim>\<open>accountId\<close>; \<^verbatim>\<open>disconnectAccount\<close> removes them and calls \<^verbatim>\<open>logout\<close>.
\<close>

record WASocket =
  sock_account :: string
  listening :: bool
  logoutCalled :: bool

datatype disconnect_reason = logged_out | max_reconnect_attempts | manual

text \<open>\<^verbatim>\<open>WhatsAppMessage\<close>, the canonical record (\<^verbatim>\<open>id\<close>, \<^verbatim>\<open>from\<close>, \<^verbatim>\<open>to\<close>, \<^verbatim>\<open>type\<close>, \<^verbatim>\<open>content\<close>, ...).\<close>

record WhatsAppMessage =
  msg_id :: string
  msg_from :: string
  msg_to :: string
  msg_type :: MessageType
  msg_content :: string
  mediaUrl :: "string option"
  msg_timestamp :: int
  isGroup :: bool
  pushName :: "string option"

text \<open>The events the service emits (\<^verbatim>\<open>this.emit\<close>), in the order of emission.\<close>

datatype wa_event =
    Qr string string
  | Connected string "string option"
  | Disconnected string disconnect_reason
  | Message string WhatsAppMessage

text \<open>An entry of \<^verbatim>\<open>messageQueue\<close>: \<^verbatim>\<open>{ message: string; timestamp: number }\<close>.\<close>

record queue_entry =
  message :: string
  timestamp :: int

text \<open>\<^verbatim>\<open>'image' | 'video' | 'audio' | 'document'\<close>, with a prefix that keeps \<open>image\<close> free.\<close>

datatype media_type = media_image | media_video | media_audio | media_document

record send_options =
  quotedMessageId :: "string option"
  opt_mediaUrl :: "string option"
  mediaType :: "media_type option"
  filename :: "string option"

text \<open>The payload handed to \<^verbatim>\<open>socket.sendMessage\<close> (the media buffer itself is left out).\<close>

datatype outbound =
    TextPayload string
  | ImagePayload "string option"
  | VideoPayload "string option"
  | AudioPayload
  | DocumentPayload string "string option"

text \<open>
  The service with the world it acts on. \<open>instances\<close> is the \<^verbatim>\<open>Map\<close> in insertion order,
  \<open>messageQueue\<close> the \<^verbatim>\<open>Map\<close> of the rate window. Around them: every socket opened so far;
  the calls of \<^verbatim>\<open>handleReconnect\<close> suspended in \<^verbatim>\<open>await sleep(delay)\<close>, each with its account
  and its delay; the session directories on disk; the \<^verbatim>\<open>status\<close> column of the accounts
  table; the events emitted; the payloads dispatched (socket, jid, payload).
\<close>

record WhatsAppService =
  instances :: "(string \<times> WhatsAppInstance) list"
  messageQueue :: "string \<rightharpoonup> queue_entry list"
  isShuttingDown :: bool
  sockets :: "WASocket list"
  sleeping :: "(string \<times> nat) list"
  sessionDirs :: "string set"
  accountStatus :: "string \<rightharpoonup> WhatsAppAccountStatus"
  emitted :: "wa_event list"
  dispatched :: "(nat \<times> string \<times> outbound) list"

definition maxReconnectAttempts :: nat where
  "maxReconnectAttempts = 5"

definition reconnectDelay :: nat where
  "reconnectDelay = 5000"

definition rateLimitWindow :: int where
  "rateLimitWindow = 60000"

definition maxMessagesPerWindow :: nat where
  "maxMessagesPerWindow = 30"

text \<open>\<^verbatim>\<open>DisconnectReason.loggedOut\<close> of the Baileys library.\<close>

definition loggedOut :: int where
  "loggedOut = 401"

text \<open>
  What the sources do not contain and the service calls: the keyed digest of
  \<^verbatim>\<open>getSessionPath\<close> (HMAC-SHA256 under the session secret, in hex) and the two helpers of
  \<^verbatim>\<open>utils/helpers.ts\<close>. They are parameters.
\<close>

record deps =
  hmacHex :: "string \<Rightarrow> string"
  extractPhoneNumber :: "string \<Rightarrow> string"
  sanitizePhoneNumber :: "string \<Rightarrow> string"

text \<open>
  What the collaborators answer during one operation: the clock; whether the update of
  the accounts table resolves; whether \<^verbatim>\<open>fs.rm\<close> resolves; whether
  \<^verbatim>\<open>useMultiFileAuthState\<close> and \<^verbatim>\<open>makeWASocket\<close> return; whether the QR code is rendered and
  stored, and its data URL; the \<^verbatim>\<open>user.id\<close> the socket reports.
\<close>

record io =
  now :: int
  dbOk :: bool
  rmOk :: bool
  authOk :: bool
  socketOk :: bool
  qrOk :: bool
  qrDataUrl :: string
  user :: "string option"

datatype wa_error =
    InstanceNotFound      \<comment> \<open>\<^verbatim>\<open>'Account instance not found'\<close>\<close>
  | ConnectFailed         \<comment> \<open>\<^verbatim>\<open>useMultiFileAuthState\<close> or \<^verbatim>\<open>makeWASocket\<close> threw\<close>
  | QrFailed              \<comment> \<open>rendering or storing the QR code threw\<close>
  | PersistenceFailed     \<comment> \<open>the update of the open branch threw\<close>
  | NotConnected          \<comment> \<open>\<^verbatim>\<open>'WhatsApp account not connected'\<close>\<close>
  | RateLimited           \<comment> \<open>\<^verbatim>\<open>'Rate limit exceeded for this recipient'\<close>\<close>
  | SendFailed string     \<comment> \<open>the error of the media fetch or of the socket, rethrown\<close>

subsection \<open>The instance map\<close>

definition get_instance :: "WhatsAppService \<Rightarrow> string \<Rightarrow> WhatsAppInstance option" where
  "get_instance s a = map_of (instances s) a"

definition set_instance :: "string \<Rightarrow> WhatsAppInstance \<Rightarrow> WhatsAppService \<Rightarrow> WhatsAppService" where
  "set_instance a i s = s\<lparr>instances := AList.update a i (instances s)\<rparr>"

definition delete_instance :: "string \<Rightarrow> WhatsAppService \<Rightarrow> WhatsAppService" where
  "delete_instance a s = s\<lparr>instances := AList.delete a (instances s)\<rparr>"

definition emit :: "wa_event \<Rightarrow> WhatsAppService \<Rightarrow> WhatsAppService" where
  "emit e s = s\<lparr>emitted := emitted s @ [e]\<rparr>"

subsection \<open>Sessions and connections\<close>

text \<open>\<^verbatim>\<open>getSessionPath\<close>: the first 16 hex digits of the digest, under \<^verbatim>\<open>sessions/\<close>.\<close>

definition getSessionPath :: "deps \<Rightarrow> string \<Rightarrow> string" where
  "getSessionPath d a = ''sessions/session_'' @ take 16 (hmacHex d a)"

text \<open>
  \<^verbatim>\<open>updateAccountStatus\<close>: the table first; the instance, if there is one, only when the
  table accepted the update. A failure is logged and swallowed.
\<close>

definition updateAccountStatus :: "string \<Rightarrow> WhatsAppAccountStatus \<Rightarrow> bool \<Rightarrow> WhatsAppService \<Rightarrow> WhatsAppService" where
  "updateAccountStatus a st ok s =
     (if ok
      then (let s1 = s\<lparr>accountStatus := (accountStatus s)(a \<mapsto> st)\<rparr> in
            case get_instance s1 a of
              None \<Rightarrow> s1
            | Some i \<Rightarrow> set_instance a (i\<lparr>status := st\<rparr>) s1)
      else s)"

text \<open>
  \<^verbatim>\<open>connectAccount\<close>: \<^verbatim>\<open>useMultiFileAuthState\<close> loads or creates the session directory, then
  the socket is made, stored in the instance and given its listeners. The state comes
  back with the error too, since the directory may exist by then.
\<close>

definition connectAccount :: "deps \<Rightarrow> string \<Rightarrow> io \<Rightarrow> WhatsAppService \<Rightarrow> WhatsAppService \<times> (wa_error + unit)" where
  "connectAccount d a w s =
     (case get_instance s a of
        None \<Rightarrow> (s, Inl InstanceNotFound)
      | Some i \<Rightarrow>
          if \<not> authOk w then (s, Inl ConnectFailed)
          else (let s1 = s\<lparr>sessionDirs := insert (getSessionPath d a) (sessionDirs s)\<rparr> in
                if \<not> socketOk w then (s1, Inl ConnectFailed)
                else (set_instance a (i\<lparr>socket := Some (length (sockets s1))\<rparr>)
                        (s1\<lparr>sockets := sockets s1 @
                            [\<lparr>sock_account = a, listening = True, logoutCalled = False\<rparr>]\<rparr>),
                      Inr ())))"

text \<open>
  \<^verbatim>\<open>disconnectAccount\<close>: the listeners of the instance's socket are removed and \<^verbatim>\<open>logout\<close> is
  called on it (its failure swallowed), the instance is deleted, the status updated, and
  \<^verbatim>\<open>disconnected\<close> is emitted with the reason \<^verbatim>\<open>manual\<close>. Without an instance nothing happens.
\<close>

definition disconnectAccount :: "string \<Rightarrow> io \<Rightarrow> WhatsAppService \<Rightarrow> WhatsAppService" where
  "disconnectAccount a w s =
     (case get_instance s a of
        None \<Rightarrow> s
      | Some i \<Rightarrow>
          (let s1 = (case socket i of
                       None \<Rightarrow> s
                     | Some k \<Rightarrow>
                         set_instance a (i\<lparr>socket := None\<rparr>)
                           (s\<lparr>sockets := (sockets s)
                               [k := (sockets s ! k)\<lparr>listening := False, logoutCalled := True\<rparr>]\<rparr>));
               s2 = delete_instance a s1;
               s3 = updateAccountStatus a DISCONNECTED (dbOk w) s2
           in emit (Disconnected a manual) s3))"

text \<open>
  \<^verbatim>\<open>initializeAccount\<close>: \<open>w0\<close> is the world of the teardown, \<open>w\<close> the world of the rest. When
  \<^verbatim>\<open>connectAccount\<close> throws, the status is set to \<^verbatim>\<open>DISCONNECTED\<close> and the error is thrown on.
\<close>

definition initializeAccount :: "deps \<Rightarrow> string \<Rightarrow> io \<Rightarrow> io \<Rightarrow> WhatsAppService \<Rightarrow> WhatsAppService \<times> (wa_error + unit)" where
  "initializeAccount d a w0 w s =
     (let s1 = (if get_instance s a \<noteq> None then disconnectAccount a w0 s else s);
          s2 = set_instance a
                 \<lparr>socket = None, accountId = a, status = CONNECTING,
                  reconnectAttempts = 0, lastActivity = now w\<rparr> s1
      in case connectAccount d a w s2 of
           (s3, Inr u) \<Rightarrow> (s3, Inr ())
         | (s3, Inl e) \<Rightarrow> (updateAccountStatus a DISCONNECTED (dbOk w) s3, Inl e))"

subsection \<open>Connection updates\<close>

datatype connection_state = conn_close | conn_open | conn_connecting

text \<open>
  \<^verbatim>\<open>Partial<ConnectionState>\<close>, as far as the handler reads it: \<^verbatim>\<open>connection\<close>, the status
  code of \<^verbatim>\<open>lastDisconnect.error\<close>, and \<^verbatim>\<open>qr\<close>.
\<close>

record ConnectionUpdate =
  connection :: "connection_state option"
  statusCode :: "int option"
  qr :: "string option"

text \<open>
  \<^verbatim>\<open>handleLoggedOut\<close>: the session directory is removed (a failure is logged and
  swallowed), the status updated, the instance deleted, \<^verbatim>\<open>disconnected\<close> emitted with the
  reason \<^verbatim>\<open>logged_out\<close>.
\<close>

definition handleLoggedOut :: "deps \<Rightarrow> string \<Rightarrow> io \<Rightarrow> WhatsAppService \<Rightarrow> WhatsAppService" where
  "handleLoggedOut d a w s =
     (let s1 = (if rmOk w then s\<lparr>sessionDirs := sessionDirs s - {getSessionPath d a}\<rparr> else s);
          s2 = updateAccountStatus a DISCONNECTED (dbOk w) s1;
          s3 = delete_instance a s2
      in emit (Disconnected a logged_out) s3)"

text \<open>
  \<^verbatim>\<open>handleReconnect\<close> up to its \<^verbatim>\<open>await sleep(delay)\<close>: at the maximum it gives up; below it
  the counter grows by one and the call goes to sleep for \<^verbatim>\<open>reconnectDelay * reconnectAttempts\<close>
  milliseconds.
\<close>

definition handleReconnect :: "string \<Rightarrow> io \<Rightarrow> WhatsAppService \<Rightarrow> WhatsAppService" where
  "handleReconnect a w s =
     (case get_instance s a of
        None \<Rightarrow> s
      | Some i \<Rightarrow>
          if reconnectAttempts i \<ge> maxReconnectAttempts
          then emit (Disconnected a max_reconnect_attempts)
                 (updateAccountStatus a DISCONNECTED (dbOk w) s)
          else (let n = reconnectAttempts i + 1;
                    s1 = set_instance a (i\<lparr>reconnectAttempts := n\<rparr>) s
                in s1\<lparr>sleeping := sleeping s1 @ [(a, reconnectDelay * n)]\<rparr>))"

text \<open>
  \<^verbatim>\<open>handleReconnect\<close> after the sleep: unless the service shuts down or the account has no
  instance, \<^verbatim>\<open>connectAccount\<close>, whose error is logged and swallowed.
\<close>

definition handleReconnect_resume :: "deps \<Rightarrow> string \<Rightarrow> io \<Rightarrow> WhatsAppService \<Rightarrow> WhatsAppService" where
  "handleReconnect_resume d a w s =
     (if \<not> isShuttingDown s \<and> get_instance s a \<noteq> None
      then fst (connectAccount d a w s)
      else s)"

text \<open>
  \<^verbatim>\<open>handleConnectionUpdate\<close>. Without an instance it returns at once. \<^verbatim>\<open>if (qr)\<close> is entered
  for a non-empty string; an exception there ends the handler. The close branch and the
  open branch follow; the open branch writes to the instance found at the start.
\<close>

definition qr_branch :: "string \<Rightarrow> ConnectionUpdate \<Rightarrow> io \<Rightarrow> WhatsAppService \<Rightarrow> wa_error + WhatsAppService" where
  "qr_branch a u w s =
     (case qr u of
        None \<Rightarrow> Inr s
      | Some q \<Rightarrow>
          if q = [] then Inr s
          else if qrOk w
          then Inr (emit (Qr a (qrDataUrl w)) (s\<lparr>accountStatus := (accountStatus s)(a \<mapsto> CONNECTING)\<rparr>))
          else Inl QrFailed)"

definition close_branch :: "deps \<Rightarrow> string \<Rightarrow> ConnectionUpdate \<Rightarrow> io \<Rightarrow> WhatsAppService \<Rightarrow> WhatsAppService" where
  "close_branch d a u w s =
     (if connection u = Some conn_close
      then (if statusCode u = Some loggedOut then handleLoggedOut d a w s
            else if \<not> isShuttingDown s then handleReconnect a w s
            else updateAccountStatus a DISCONNECTED (dbOk w) s)
      else s)"

definition open_branch :: "deps \<Rightarrow> string \<Rightarrow> WhatsAppInstance \<Rightarrow> ConnectionUpdate \<Rightarrow> io \<Rightarrow> WhatsAppService
    \<Rightarrow> WhatsAppService \<times> (wa_error + unit)" where
  "open_branch d a i u w s =
     (if connection u = Some conn_open
      then (let s1 = set_instance a
                       (i\<lparr>status := CONNECTED, reconnectAttempts := 0, lastActivity := now w\<rparr>) s;
                phoneNumber = (if socket i = None then None
                               else case user w of
                                      None \<Rightarrow> None
                                    | Some uid \<Rightarrow> if uid = [] then None
                                                  else Some (extractPhoneNumber d uid))
            in if dbOk w
               then (emit (Connected a phoneNumber)
                       (s1\<lparr>accountStatus := (accountStatus s1)(a \<mapsto> CONNECTED)\<rparr>), Inr ())
               else (s1, Inl PersistenceFailed))
      else (s, Inr ()))"

definition handleConnectionUpdate :: "deps \<Rightarrow> string \<Rightarrow> ConnectionUpdate \<Rightarrow> io \<Rightarrow> WhatsAppService
    \<Rightarrow> WhatsAppService \<times> (wa_error + unit)" where
  "handleConnectionUpdate d a u w s =
     (case get_instance s a of
        None \<Rightarrow> (s, Inr ())
      | Some i \<Rightarrow>
          (case qr_branch a u w s of
             Inl e \<Rightarrow> (s, Inl e)
           | Inr s1 \<Rightarrow> open_branch d a i u w (close_branch d a u w s1)))"

subsection \<open>The rate window\<close>

text \<open>
  \<^verbatim>\<open>checkRateLimit\<close>: the entries of the recipient whose age \<^verbatim>\<open>now - timestamp\<close> is under the
  window are kept and stored back; the answer is whether fewer than the cap remain.
\<close>

definition checkRateLimit :: "int \<Rightarrow> string \<Rightarrow> WhatsAppService \<Rightarrow> WhatsAppService \<times> bool" where
  "checkRateLimit t recipient s =
     (let queue = (case messageQueue s recipient of None \<Rightarrow> [] | Some q \<Rightarrow> q);
          recentMessages = filter (\<lambda>m. t - timestamp m < rateLimitWindow) queue
      in (s\<lparr>messageQueue := (messageQueue s)(recipient \<mapsto> recentMessages)\<rparr>,
          length recentMessages < maxMessagesPerWindow))"

text \<open>\<^verbatim>\<open>recordMessage\<close>: an entry with the current time is pushed on the recipient's queue.\<close>

definition recordMessage :: "int \<Rightarrow> string \<Rightarrow> WhatsAppService \<Rightarrow> WhatsAppService" where
  "recordMessage t recipient s =
     (let queue = (case messageQueue s recipient of None \<Rightarrow> [] | Some q \<Rightarrow> q)
      in s\<lparr>messageQueue := (messageQueue s)(recipient \<mapsto> queue @ [\<lparr>message = [], timestamp = t\<rparr>])\<rparr>)"

subsection \<open>Sending\<close>

text \<open>
  What the collaborators answer during one \<^verbatim>\<open>sendMessage\<close>: the clock at the check, the
  error of the media fetch if it throws, what \<^verbatim>\<open>socket.sendMessage\<close> does (it throws, or
  returns the message info, here its key id, or nothing), and the clock at the record
  and at the update of \<^verbatim>\<open>lastActivity\<close>. The typing simulation swallows its own failure.
\<close>

record send_io =
  checkedAt :: int
  fetchError :: "string option"
  delivery :: "string + string option"
  recordedAt :: int
  activeAt :: int

text \<open>\<^verbatim>\<open>content || undefined\<close>: an empty caption is no caption.\<close>

definition caption_of :: "string \<Rightarrow> string option" where
  "caption_of c = (if c = [] then None else Some c)"

text \<open>
  The payload: media when \<^verbatim>\<open>options?.mediaUrl && options?.mediaType\<close>, after the fetch of the
  buffer, which may throw; text otherwise.
\<close>

definition build_payload :: "string \<Rightarrow> send_options option \<Rightarrow> send_io \<Rightarrow> string + outbound" where
  "build_payload c options w =
     (case options of
        None \<Rightarrow> Inr (TextPayload c)
      | Some opts \<Rightarrow>
          (case (opt_mediaUrl opts, mediaType opts) of
             (Some url, Some mt) \<Rightarrow>
               if url = [] then Inr (TextPayload c)
               else (case fetchError w of
                       Some e \<Rightarrow> Inl e
                     | None \<Rightarrow>
                         Inr (case mt of
                                media_image \<Rightarrow> ImagePayload (caption_of c)
                              | media_video \<Rightarrow> VideoPayload (caption_of c)
                              | media_audio \<Rightarrow> AudioPayload
                              | media_document \<Rightarrow>
                                  DocumentPayload
                                    (case filename opts of
                                       None \<Rightarrow> ''document''
                                     | Some f \<Rightarrow> if f = [] then ''document'' else f)
                                    (caption_of c)))
           | _ \<Rightarrow> Inr (TextPayload c)))"

text \<open>
  \<^verbatim>\<open>sendMessage\<close>: the connection check, the rate check, then inside the \<^verbatim>\<open>try\<close> the payload
  and the dispatch; after a dispatch that returned, the send is recorded and
  \<^verbatim>\<open>lastActivity\<close> is set; an error inside the \<^verbatim>\<open>try\<close> is logged and thrown on.
\<close>

definition sendMessage :: "deps \<Rightarrow> string \<Rightarrow> string \<Rightarrow> string \<Rightarrow> send_options option \<Rightarrow> send_io \<Rightarrow> WhatsAppService
    \<Rightarrow> WhatsAppService \<times> (wa_error + string option)" where
  "sendMessage d a to c options w s =
     (case get_instance s a of
        None \<Rightarrow> (s, Inl NotConnected)
      | Some i \<Rightarrow>
          (case socket i of
             None \<Rightarrow> (s, Inl NotConnected)
           | Some k \<Rightarrow>
               if status i \<noteq> CONNECTED then (s, Inl NotConnected)
               else (case checkRateLimit (checkedAt w) to s of
                       (s1, ok) \<Rightarrow>
                         if \<not> ok then (s1, Inl RateLimited)
                         else (case build_payload c options w of
                                 Inl e \<Rightarrow> (s1, Inl (SendFailed e))
                               | Inr payload \<Rightarrow>
                                   (case delivery w of
                                      Inl e \<Rightarrow> (s1, Inl (SendFailed e))
                                    | Inr result \<Rightarrow>
                                        (let s2 = s1\<lparr>dispatched := dispatched s1 @
                                                      [(k, sanitizePhoneNumber d to, payload)]\<rparr>;
                                             s3 = recordMessage (recordedAt w) to s2;
                                             s4 = set_instance a (i\<lparr>lastActivity := activeAt w\<rparr>) s3
                                         in (s4, Inr result)))))))"

subsection \<open>Ingestion\<close>

text \<open>
  The message content, as far as \<^verbatim>\<open>parseMessage\<close> reads it: the discriminator that
  \<^verbatim>\<open>getContentType\<close> of the Baileys library answers for it (nothing, when it finds no
  key), and the fields the branches read. The two coordinates of a location are the
  texts the template string renders for them.
\<close>

record IMessage =
  contentType :: "string option"
  conversation :: "string option"
  extendedText :: "string option"
  imageCaption :: "string option"
  videoCaption :: "string option"
  documentFileName :: "string option"
  location :: "(string \<times> string) option"
  contactDisplayName :: "string option"

text \<open>\<^verbatim>\<open>messageTimestamp\<close> is a number or a \<^verbatim>\<open>Long\<close>; a \<^verbatim>\<open>Long\<close> is an object and never falsy.\<close>

datatype wa_timestamp = Num int | Long int

record WAMessage =
  wa_message :: "IMessage option"
  remoteJid :: "string option"
  key_id :: "string option"
  fromMe :: bool
  messageTimestamp :: "wa_timestamp option"
  wa_pushName :: "string option"

text \<open>\<^verbatim>\<open>v || d\<close> for an optional string: a missing or empty \<open>v\<close> gives \<open>d\<close>.\<close>

definition or_else :: "string option \<Rightarrow> string \<Rightarrow> string" where
  "or_else v d = (case v of None \<Rightarrow> d | Some x \<Rightarrow> if x = [] then d else x)"

definition endsWith :: "string \<Rightarrow> string \<Rightarrow> bool" where
  "endsWith s suffix = (length suffix \<le> length s \<and> drop (length s - length suffix) s = suffix)"

text \<open>The switch over the discriminator: the type and the content it assigns.\<close>

definition classify :: "IMessage \<Rightarrow> MessageType \<times> string" where
  "classify m =
     (let ct = contentType m in
      if ct = Some ''conversation'' then (TEXT, or_else (conversation m) [])
      else if ct = Some ''extendedTextMessage'' then (TEXT, or_else (extendedText m) [])
      else if ct = Some ''imageMessage'' then (IMAGE, or_else (imageCaption m) ''[Image]'')
      else if ct = Some ''videoMessage'' then (VIDEO, or_else (videoCaption m) ''[Video]'')
      else if ct = Some ''audioMessage'' then (AUDIO, ''[Audio message]'')
      else if ct = Some ''documentMessage'' then (DOCUMENT, or_else (documentFileName m) ''[Document]'')
      else if ct = Some ''stickerMessage'' then (STICKER, ''[Sticker]'')
      else if ct = Some ''locationMessage''
      then (LOCATION, case location m of
                        Some (lat, lng) \<Rightarrow> ''[Location: '' @ lat @ '', '' @ lng @ '']''
                      | None \<Rightarrow> ''[Location]'')
      else if ct = Some ''contactMessage'' then (CONTACT, or_else (contactDisplayName m) ''[Contact]'')
      else (TEXT, ''[Unsupported message type]''))"

text \<open>
  \<^verbatim>\<open>parseMessage\<close>; \<open>uuid\<close> is what \<^verbatim>\<open>crypto.randomUUID()\<close> would answer and \<open>t\<close> what
  \<^verbatim>\<open>Date.now()\<close> would. Without content or without a sender address the answer is \<^verbatim>\<open>null\<close>.
\<close>

definition parseMessage :: "deps \<Rightarrow> string \<Rightarrow> WAMessage \<Rightarrow> string \<Rightarrow> int \<Rightarrow> WhatsAppMessage option" where
  "parseMessage d a msg uuid t =
     (case wa_message msg of
        None \<Rightarrow> None
      | Some messageContent \<Rightarrow>
          (case remoteJid msg of
             None \<Rightarrow> None
           | Some from \<Rightarrow>
               if from = [] then None
               else (case classify messageContent of
                       (ty, c) \<Rightarrow>
                         Some \<lparr>msg_id = or_else (key_id msg) uuid,
                               msg_from = extractPhoneNumber d from,
                               msg_to = a,
                               msg_type = ty,
                               msg_content = c,
                               mediaUrl = None,
                               msg_timestamp =
                                 (case messageTimestamp msg of
                                    None \<Rightarrow> t
                                  | Some (Num n) \<Rightarrow> if n = 0 then t else n * 1000
                                  | Some (Long n) \<Rightarrow> n * 1000),
                               isGroup = endsWith from ''@g.us'',
                               pushName = (case wa_pushName msg of
                                             None \<Rightarrow> None
                                           | Some p \<Rightarrow> if p = [] then None else Some p)\<rparr>)))"

text \<open>
  \<^verbatim>\<open>handleIncomingMessages\<close>: only for the upsert type \<^verbatim>\<open>notify\<close>; a message without content
  or sent by the account itself is skipped; what \<^verbatim>\<open>parseMessage\<close> answers is emitted. Each
  message comes with the uuid and the clock of its parse.
\<close>

fun incoming :: "deps \<Rightarrow> string \<Rightarrow> (WAMessage \<times> string \<times> int) list \<Rightarrow> wa_event list" where
  "incoming d a [] = []"
| "incoming d a ((msg, uuid, t) # rest) =
     (if wa_message msg = None \<or> fromMe msg then incoming d a rest
      else (case parseMessage d a msg uuid t of
              None \<Rightarrow> incoming d a rest
            | Some whatsappMessage \<Rightarrow> Message a whatsappMessage # incoming d a rest))"

definition handleIncomingMessages :: "deps \<Rightarrow> string \<Rightarrow> string \<Rightarrow> (WAMessage \<times> string \<times> int) list \<Rightarrow> WhatsAppService \<Rightarrow> WhatsAppService" where
  "handleIncomingMessages d a upsertType messages s =
     (if upsertType \<noteq> ''notify'' then s
      else s\<lparr>emitted := emitted s @ incoming d a messages\<rparr>)"

subsection \<open>Shutdown and the operations of the supervisor\<close>

text \<open>
  \<^verbatim>\<open>shutdown\<close>: the flag, the disconnect of every instance, then both maps are cleared.
  The source starts the disconnects together and awaits them all; here they run one
  after the other in the order of the map, which is one of the orders in which they
  can complete, so that the order of the \<^verbatim>\<open>disconnected\<close> events among the accounts is
  not to be read off this definition.
\<close>

definition shutdown :: "io \<Rightarrow> WhatsAppService \<Rightarrow> WhatsAppService" where
  "shutdown w s =
     (let s1 = s\<lparr>isShuttingDown := True\<rparr>;
          s2 = fold (\<lambda>a. disconnectAccount a w) (map fst (instances s1)) s1
      in s2\<lparr>instances := [], messageQueue := Map.empty\<rparr>)"

text \<open>
  What can happen to the service, one thing at a time: a call of its interface; a
  \<^verbatim>\<open>connection.update\<close> or a \<^verbatim>\<open>messages.upsert\<close> of the socket with a given handle, which
  reaches the handler only while the listeners are on that socket and runs it for the
  account the listeners were registered with; a suspended \<^verbatim>\<open>handleReconnect\<close> waking up.
\<close>

datatype operation =
    InitializeAccount string io io
  | DisconnectAccount string io
  | SendMessage string string string "send_options option" send_io
  | Shutdown io
  | ConnectionEvent nat ConnectionUpdate io
  | MessagesEvent nat string "(WAMessage \<times> string \<times> int) list"
  | ReconnectWakes nat io

fun step :: "deps \<Rightarrow> operation \<Rightarrow> WhatsAppService \<Rightarrow> WhatsAppService" where
  "step d (InitializeAccount a w0 w) s = fst (initializeAccount d a w0 w s)"
| "step d (DisconnectAccount a w) s = disconnectAccount a w s"
| "step d (SendMessage a to c options w) s = fst (sendMessage d a to c options w s)"
| "step d (Shutdown w) s = shutdown w s"
| "step d (ConnectionEvent k u w) s =
     (if k < length (sockets s) \<and> listening (sockets s ! k)
      then fst (handleConnectionUpdate d (sock_account (sockets s ! k)) u w s)
      else s)"
| "step d (MessagesEvent k upsertType messages) s =
     (if k < length (sockets s) \<and> listening (sockets s ! k)
      then handleIncomingMessages d (sock_account (sockets s ! k)) upsertType messages s
      else s)"
| "step d (ReconnectWakes k w) s =
     (if k < length (sleeping s)
      then handleReconnect_resume d (fst (sleeping s ! k)) w
             (s\<lparr>sleeping := take k (sleeping s) @ drop (Suc k) (sleeping s)\<rparr>)
      else s)"

definition run :: "deps \<Rightarrow> operation list \<Rightarrow> WhatsAppService \<Rightarrow> WhatsAppService" where
  "run d ops s = fold (step d) ops s"

text \<open>The service as its constructor leaves it.\<close>

definition fresh_service :: WhatsAppService where
  "fresh_service =
     \<lparr>instances = [], messageQueue = Map.empty, isShuttingDown = False, sockets = [],
      sleeping = [], sessionDirs = {}, accountStatus = Map.empty, emitted = [], dispatched = []\<rparr>"


subsection \<open>Notions the statements about the supervisor use\<close>

text \<open>The nine discriminators \<^verbatim>\<open>parseMessage\<close> has a case for.\<close>

definition supported_kinds :: "string list" where
  "supported_kinds =
     [''conversation'', ''extendedTextMessage'', ''imageMessage'', ''videoMessage'',
      ''audioMessage'', ''documentMessage'', ''stickerMessage'', ''locationMessage'',
      ''contactMessage'']"

text \<open>Stand-ins for the three parameters, for the concrete runs.\<close>

definition plain_deps :: deps where
  "plain_deps =
     \<lparr>hmacHex = (\<lambda>a. a),
      extractPhoneNumber = takeWhile (\<lambda>c. c \<noteq> CHR ''@''),
      sanitizePhoneNumber = (\<lambda>p. p @ ''@s.whatsapp.net'')\<rparr>"

text \<open>A poll, which \<^verbatim>\<open>parseMessage\<close> has no case for, from a sender with an address.\<close>

definition poll_message :: WAMessage where
  "poll_message =
     \<lparr>wa_message = Some \<lparr>contentType = Some ''pollCreationMessage'', conversation = None,
                          extendedText = None, imageCaption = None, videoCaption = None,
                          documentFileName = None, location = None, contactDisplayName = None\<rparr>,
      remoteJid = Some ''923001234567@s.whatsapp.net'',
      key_id = Some ''3EB0A1'',
      fromMe = False,
      messageTimestamp = Some (Num 1700000000),
      wa_pushName = Some ''Ali''\<rparr>"

text \<open>The queue of a recipient (\<^verbatim>\<open>this.messageQueue.get(recipient) || []\<close>).\<close>

definition queue_of :: "WhatsAppService \<Rightarrow> string \<Rightarrow> queue_entry list" where
  "queue_of s recipient = (case messageQueue s recipient of None \<Rightarrow> [] | Some q \<Rightarrow> q)"











text \<open>
  The account is connected: it has an instance with a socket and the status
  \<^verbatim>\<open>CONNECTED\<close> (the guard \<^verbatim>\<open>!instance?.socket || instance.status !== 'CONNECTED'\<close> is false).
\<close>

definition connected :: "WhatsAppService \<Rightarrow> string \<Rightarrow> bool" where
  "connected s a =
     (case get_instance s a of
        None \<Rightarrow> False
      | Some i \<Rightarrow> socket i \<noteq> None \<and> status i = CONNECTED)"

text \<open>The rate window admits a send to the recipient at time \<open>t\<close>.\<close>

definition admits :: "int \<Rightarrow> string \<Rightarrow> WhatsAppService \<Rightarrow> bool" where
  "admits t recipient s \<longleftrightarrow>
     length (filter (\<lambda>m. t - timestamp m < rateLimitWindow) (queue_of s recipient))
       < maxMessagesPerWindow"

text \<open>Concrete worlds, updates and states for the runs the statements are tried on.\<close>

definition calm :: io where
  "calm = \<lparr>now = 1000, dbOk = True, rmOk = True, authOk = True, socketOk = True,
           qrOk = True, qrDataUrl = ''data:image/png;base64,QR'',
           user = Some ''923009999999:1@s.whatsapp.net''\<rparr>"

definition open_update :: ConnectionUpdate where
  "open_update = \<lparr>connection = Some conn_open, statusCode = None, qr = None\<rparr>"

text \<open>A close event: \<^verbatim>\<open>connection: 'close'\<close> with the status code of the last disconnect.\<close>

definition close_update :: "int option \<Rightarrow> ConnectionUpdate" where
  "close_update code = \<lparr>connection = Some conn_close, statusCode = code, qr = None\<rparr>"

text \<open>The account \<^verbatim>\<open>acc1\<close> initialised and its connection opened.\<close>

definition online :: WhatsAppService where
  "online =
     run plain_deps
       [InitializeAccount ''acc1'' calm calm, ConnectionEvent 0 open_update calm]
       fresh_service"

text \<open>
  The live connections of an account: the sockets opened for it that still have their
  listeners and were not logged out, by their handles.
\<close>

definition live_connections :: "string \<Rightarrow> WhatsAppService \<Rightarrow> nat list" where
  "live_connections a s =
     filter (\<lambda>k. sock_account (sockets s ! k) = a \<and> listening (sockets s ! k) \<and>
                 \<not> logoutCalled (sockets s ! k))
       [0..<length (sockets s)]"

text \<open>
  \<^verbatim>\<open>acc1\<close> is initialised and its connection opens; the connection closes with the code
  428, which sends \<^verbatim>\<open>handleReconnect\<close> to sleep for 5000 ms; within that time the account
  is initialised again; then the sleep ends.
\<close>

definition reinitialize_while_asleep :: "operation list" where
  "reinitialize_while_asleep =
     [InitializeAccount ''acc1'' calm calm,
      ConnectionEvent 0 open_update calm,
      ConnectionEvent 0 (close_update (Some 428)) calm,
      InitializeAccount ''acc1'' calm calm,
      ReconnectWakes 0 calm]"

definition delivered :: send_io where
  "delivered = \<lparr>checkedAt = 2000, fetchError = None, delivery = Inr (Some ''3EB0C7''),
                recordedAt = 4000, activeAt = 4001\<rparr>"

text \<open>
  The instance map holds at most one entry under each key, and the entry under a key is
  the instance of that account.
\<close>

definition keyed :: "WhatsAppService \<Rightarrow> bool" where
  "keyed s \<longleftrightarrow>
     distinct (map fst (instances s)) \<and>
     (\<forall>k i. get_instance s k = Some i \<longrightarrow> accountId i = k)"

text \<open>
  For the reconnect path: the counter of an account; the number of sockets opened for it
  so far; and the account being settled, which is to have no reconnect asleep and,
  if it has an instance, a counter at the maximum or beyond.
\<close>

definition attempts :: "WhatsAppService \<Rightarrow> string \<Rightarrow> nat option" where
  "attempts s a = map_option reconnectAttempts (get_instance s a)"

definition opened :: "string \<Rightarrow> WhatsAppService \<Rightarrow> nat" where
  "opened a s = length (filter (\<lambda>x. sock_account x = a) (sockets s))"

definition settled :: "string \<Rightarrow> WhatsAppService \<Rightarrow> bool" where
  "settled a s \<longleftrightarrow>
     a \<notin> fst ` set (sleeping s) \<and>
     (case attempts s a of None \<Rightarrow> True | Some n \<Rightarrow> maxReconnectAttempts \<le> n)"

text \<open>
  An operation that sets the counter of the account back to 0: its initialisation, or
  an open event that reaches the handler of the account.
\<close>

fun resets :: "string \<Rightarrow> WhatsAppService \<Rightarrow> operation \<Rightarrow> bool" where
  "resets a s (InitializeAccount b w0 w) = (b = a)"
| "resets a s (ConnectionEvent k u w) =
     (k < length (sockets s) \<and> listening (sockets s ! k) \<and> sock_account (sockets s ! k) = a \<and>
      connection u = Some conn_open)"
| "resets a s other = False"

text \<open>A run in which no operation resets the counter of the account.\<close>

fun undisturbed :: "deps \<Rightarrow> string \<Rightarrow> operation list \<Rightarrow> WhatsAppService \<Rightarrow> bool" where
  "undisturbed d a [] s = True"
| "undisturbed d a (op # ops) s = (\<not> resets a s op \<and> undisturbed d a ops (step d op s))"

text \<open>
  A close that is not a logout (428, connection closed), and five reconnects in a row
  that each end in such a close: the socket closes, the reconnect wakes and opens the
  next socket. \<open>worn\<close> is the account \<^verbatim>\<open>acc1\<close> after them.
\<close>

definition transient :: ConnectionUpdate where
  "transient = close_update (Some 428)"

definition five_failures :: "operation list" where
  "five_failures =
     [ConnectionEvent 0 transient calm, ReconnectWakes 0 calm,
      ConnectionEvent 1 transient calm, ReconnectWakes 0 calm,
      ConnectionEvent 2 transient calm, ReconnectWakes 0 calm,
      ConnectionEvent 3 transient calm, ReconnectWakes 0 calm,
      ConnectionEvent 4 transient calm, ReconnectWakes 0 calm]"

definition worn :: WhatsAppService where
  "worn = run plain_deps five_failures online"

section \<open>The orchestrator: selection, failover and quota accounting\<close>

subsection \<open>The scan\<close>

lemma scan_configs_None:
  "scan_configs pm cs i = None \<longleftrightarrow> (\<forall>c \<in> set cs. \<not> available pm c)"
  by (induction cs arbitrary: i) (auto simp: available_def split: option.splits)

lemma scan_configs_Some:
  "scan_configs pm cs i = Some (j, p) \<Longrightarrow>
     i \<le> j \<and> j - i < length cs \<and> usedToday (cs ! (j - i)) < dailyLimit (cs ! (j - i)) \<and>
     pm (cfg_id (cs ! (j - i))) = Some p \<and> (\<forall>k < j - i. \<not> available pm (cs ! k))"
proof (induction cs arbitrary: i)
  case Nil
  then show ?case by simp
next
  case (Cons c cs)
  show ?case
  proof (cases "available pm c")
    case True
    with Cons.prems show ?thesis by (auto simp: available_def)
  next
    case False
    with Cons.prems have rest: "scan_configs pm cs (Suc i) = Some (j, p)"
      by (auto simp: available_def split: if_splits option.splits)
    from Cons.IH [OF rest] have ih: "Suc i \<le> j" "j - Suc i < length cs"
      "usedToday (cs ! (j - Suc i)) < dailyLimit (cs ! (j - Suc i))"
      "pm (cfg_id (cs ! (j - Suc i))) = Some p"
      "\<forall>k < j - Suc i. \<not> available pm (cs ! k)" by auto
    from ih(1) have eq: "j - i = Suc (j - Suc i)" by simp
    show ?thesis using ih False unfolding eq
      by (auto simp: less_Suc_eq_0_disj)
  qed
qed

lemma getAvailableProvider_None:
  "getAvailableProvider s = None \<longleftrightarrow> (\<forall>c \<in> set (providerConfigs s). \<not> available (providers s) c)"
  by (simp add: getAvailableProvider_def scan_configs_None)

lemma getAvailableProvider_Some:
  assumes "getAvailableProvider s = Some (j, p)"
  shows "j < length (providerConfigs s)"
    and "usedToday (providerConfigs s ! j) < dailyLimit (providerConfigs s ! j)"
    and "providers s (cfg_id (providerConfigs s ! j)) = Some p"
    and "\<forall>k < j. \<not> available (providers s) (providerConfigs s ! k)"
  using scan_configs_Some [of "providers s" "providerConfigs s" 0 j p] assms
  by (simp_all add: getAvailableProvider_def)

lemma set_usedToday_simps [simp]:
  "length (providerConfigs (set_usedToday i v s)) = length (providerConfigs s)"
  "providers (set_usedToday i v s) = providers s"
  by (simp_all add: set_usedToday_def)

lemma set_usedToday_nth:
  "k < length (providerConfigs s) \<Longrightarrow>
   providerConfigs (set_usedToday i v s) ! k =
     (if k = i then (providerConfigs s ! k)\<lparr>usedToday := v\<rparr> else providerConfigs s ! k)"
  by (simp add: set_usedToday_def nth_list_update)

subsection \<open>One run of the retry loop\<close>

lemma retry_loop_post:
  "retry_loop n a api le s = (s', tr, r) \<Longrightarrow> loop_post s s' tr"
proof (induction n arbitrary: a le s s' tr r)
  case 0
  then show ?case by (auto simp: loop_post_def)
next
  case (Suc n)
  show ?case
  proof (cases "getAvailableProvider s")
    case None
    with Suc.prems show ?thesis by (auto simp: loop_post_def)
  next
    case (Some ip)
    obtain i p where ip: "ip = (i, p)" by (cases ip)
    note sel = getAvailableProvider_Some [OF Some [unfolded ip]]
    let ?c = "providerConfigs s ! i"
    show ?thesis
    proof (cases "provider_generate p ?c (api a ?c)")
      case (Inr res)
      with Suc.prems Some ip have "s' = set_usedToday i (usedToday ?c + 1) s" "tr = [(i, None)]"
        by (auto simp: Let_def)
      with sel show ?thesis
        by (auto simp: loop_post_def set_usedToday_nth)
    next
      case (Inl e)
      let ?s1 = "set_usedToday i (dailyLimit ?c) s"
      obtain s2 tr2 r2 where rec: "retry_loop n (Suc a) api (Some e) ?s1 = (s2, tr2, r2)"
        by (cases "retry_loop n (Suc a) api (Some e) ?s1") auto
      with Suc.prems Some ip Inl have out: "s' = s2" "tr = (i, Some e) # tr2" "r = r2"
        by (auto simp: Let_def)
      from Suc.IH [OF rec] have ih: "loop_post ?s1 s2 tr2" .
      have notin: "i \<notin> fst ` set tr2"
      proof
        assume "i \<in> fst ` set tr2"
        then obtain x where "x \<in> set tr2" "fst x = i" by auto
        with ih have "usedToday (providerConfigs ?s1 ! i) < dailyLimit (providerConfigs ?s1 ! i)"
          by (auto simp: loop_post_def)
        with sel(1) show False by (simp add: set_usedToday_nth)
      qed
      then have notin': "(i, None) \<notin> set tr2" by force
      show ?thesis unfolding out loop_post_def
      proof (intro conjI allI impI ballI)
        show "length (providerConfigs s2) = length (providerConfigs s)"
          using ih by (simp add: loop_post_def)
        show "providers s2 = providers s"
          using ih by (simp add: loop_post_def)
        show "distinct (map fst ((i, Some e) # tr2))"
          using ih notin by (simp add: loop_post_def)
      next
        fix k assume k: "k < length (providerConfigs s)"
        with ih have f: "cfg_id (providerConfigs s2 ! k) = cfg_id (providerConfigs ?s1 ! k)"
          "cfg_type (providerConfigs s2 ! k) = cfg_type (providerConfigs ?s1 ! k)"
          "dailyLimit (providerConfigs s2 ! k) = dailyLimit (providerConfigs ?s1 ! k)"
          "priority (providerConfigs s2 ! k) = priority (providerConfigs ?s1 ! k)"
          "usedToday (providerConfigs s2 ! k) =
            (if (k, None) \<in> set tr2 then usedToday (providerConfigs ?s1 ! k) + 1
             else if k \<in> fst ` set tr2 then dailyLimit (providerConfigs ?s1 ! k)
             else usedToday (providerConfigs ?s1 ! k))"
          by (simp_all add: loop_post_def)
        show "cfg_id (providerConfigs s2 ! k) = cfg_id (providerConfigs s ! k)"
          using f(1) k by (simp add: set_usedToday_nth)
        show "cfg_type (providerConfigs s2 ! k) = cfg_type (providerConfigs s ! k)"
          using f(2) k by (simp add: set_usedToday_nth)
        show "dailyLimit (providerConfigs s2 ! k) = dailyLimit (providerConfigs s ! k)"
          using f(3) k by (simp add: set_usedToday_nth)
        show "priority (providerConfigs s2 ! k) = priority (providerConfigs s ! k)"
          using f(4) k by (simp add: set_usedToday_nth)
        show "usedToday (providerConfigs s2 ! k) =
          (if (k, None) \<in> set ((i, Some e) # tr2) then usedToday (providerConfigs s ! k) + 1
           else if k \<in> fst ` set ((i, Some e) # tr2) then dailyLimit (providerConfigs s ! k)
           else usedToday (providerConfigs s ! k))"
        proof (cases "k = i")
          case True
          with f(5) notin notin' k show ?thesis by (simp add: set_usedToday_nth)
        next
          case False
          with f(5) k show ?thesis by (simp add: set_usedToday_nth)
        qed
      next
        fix x assume x: "x \<in> set ((i, Some e) # tr2)"
        show "fst x < length (providerConfigs s)"
          using x sel(1) ih by (auto simp: loop_post_def)
        show "usedToday (providerConfigs s ! fst x) < dailyLimit (providerConfigs s ! fst x)"
        proof (cases "x = (i, Some e)")
          case True
          with sel(2) show ?thesis by simp
        next
          case False
          with x have x2: "x \<in> set tr2" by simp
          with notin have ne: "fst x \<noteq> i" by auto
          from x2 ih have "fst x < length (providerConfigs s)"
            "usedToday (providerConfigs ?s1 ! fst x) < dailyLimit (providerConfigs ?s1 ! fst x)"
            by (auto simp: loop_post_def)
          with ne show ?thesis by (simp add: set_usedToday_nth)
        qed
      qed
    qed
  qed
qed

text \<open>
  How the loop ends: with the result of its last invocation; with the all-exhausted
  error when the scan finds nobody before the budget is spent; or, the budget spent on
  failures, with the error of the last one.
\<close>

lemma retry_loop_result:
  "retry_loop n a api le s = (s', tr, r) \<Longrightarrow>
     (case r of
        Inr res \<Rightarrow> tr \<noteq> [] \<and> snd (last tr) = None \<and> length tr \<le> n \<and>
                   providerId res = cfg_id (providerConfigs s ! fst (last tr))
      | Inl AllProvidersExhausted \<Rightarrow> length tr < n \<and> getAvailableProvider s' = None
      | Inl (ProviderError e) \<Rightarrow> length tr = n \<and> (if tr = [] then le else snd (last tr)) = Some e
      | Inl GenerationFailed \<Rightarrow> n = 0 \<and> le = None
      | Inl (PromptError e) \<Rightarrow> False) \<and>
     (\<forall>x \<in> set (butlast tr). snd x \<noteq> None) \<and>
     (\<forall>e. r \<noteq> Inl (PromptError e)) \<and>
     ((\<exists>res. r = Inr res) \<or> (\<forall>x \<in> set tr. snd x \<noteq> None))"
proof (induction n arbitrary: a le s s' tr r)
  case 0
  then show ?case by (auto split: option.splits)
next
  case (Suc n)
  show ?case
  proof (cases "getAvailableProvider s")
    case None
    with Suc.prems show ?thesis by auto
  next
    case (Some ip)
    obtain i p where ip: "ip = (i, p)" by (cases ip)
    let ?c = "providerConfigs s ! i"
    show ?thesis
    proof (cases "api a ?c")
      case (ApiOk x1 x2 x3 x4)
      with Suc.prems Some ip show ?thesis by (auto simp: Let_def)
    next
      case (ApiError e)
      let ?s1 = "set_usedToday i (dailyLimit ?c) s"
      obtain s2 tr2 r2 where rec: "retry_loop n (Suc a) api (Some e) ?s1 = (s2, tr2, r2)"
        by (cases "retry_loop n (Suc a) api (Some e) ?s1") auto
      with Suc.prems Some ip ApiError have out: "s' = s2" "tr = (i, Some e) # tr2" "r = r2"
        by (auto simp: Let_def)
      note sel = getAvailableProvider_Some [OF Some [unfolded ip]]
      from retry_loop_post [OF rec] have post: "loop_post ?s1 s2 tr2" .
      from Suc.IH [OF rec] show ?thesis unfolding out
        apply (cases r2)
        subgoal for err by (cases err) (auto simp: Let_def)
        subgoal for res
          using post sel(1)
          by (auto simp: Let_def loop_post_def set_usedToday_nth split: if_splits)
        done
    qed
  qed
qed

lemma generateResponse_post:
  assumes "generateResponse be s = (s', tr, r)"
  shows "loop_post s s' tr"
proof (cases "promptResult be")
  case (Inl e)
  with assms show ?thesis by (auto simp: generateResponse_def loop_post_def)
next
  case (Inr p)
  with assms show ?thesis by (auto simp: generateResponse_def intro: retry_loop_post)
qed

subsection \<open>The order of the pool\<close>

lemma fold_providers_dom:
  "dom (fold (\<lambda>p m. m(cfg_id p \<mapsto> cfg_type p)) rows m0) = dom m0 \<union> cfg_id ` set rows"
  by (induction rows arbitrary: m0) auto

lemma loadProviders_ordered:
  "sorted_wrt (\<lambda>a b. priority b \<le> priority a) rows \<Longrightarrow> priority_ordered (loadProviders rows)"
  using fold_providers_dom [of rows Map.empty]
  by (auto simp: priority_ordered_def loadProviders_def dom_def)

lemma loop_post_ordered:
  assumes "loop_post s s' tr" "priority_ordered s"
  shows "priority_ordered s'"
proof -
  from assms(1) have len: "length (providerConfigs s') = length (providerConfigs s)"
    and pm: "providers s' = providers s"
    and same: "\<And>k. k < length (providerConfigs s) \<Longrightarrow>
      cfg_id (providerConfigs s' ! k) = cfg_id (providerConfigs s ! k) \<and>
      priority (providerConfigs s' ! k) = priority (providerConfigs s ! k)"
    by (simp_all add: loop_post_def)
  have "sorted_wrt (\<lambda>a b. priority b \<le> priority a) (providerConfigs s')"
    using assms(2) len same
    by (simp add: priority_ordered_def sorted_wrt_iff_nth_less)
  moreover have "providers s' (cfg_id c) \<noteq> None" if "c \<in> set (providerConfigs s')" for c
  proof -
    from that len obtain k where k: "k < length (providerConfigs s)" "c = providerConfigs s' ! k"
      by (auto simp: in_set_conv_nth)
    with same have "cfg_id c = cfg_id (providerConfigs s ! k)" by simp
    moreover from k(1) have "providerConfigs s ! k \<in> set (providerConfigs s)" by simp
    ultimately show ?thesis using assms(2) pm by (auto simp: priority_ordered_def)
  qed
  ultimately show ?thesis by (simp add: priority_ordered_def)
qed

lemma generate_all_ordered:
  "priority_ordered s \<Longrightarrow> priority_ordered (fst (generate_all bes s))"
proof (induction bes arbitrary: s)
  case Nil
  then show ?case by simp
next
  case (Cons be bes)
  obtain s1 tr r where g: "generateResponse be s = (s1, tr, r)"
    by (cases "generateResponse be s") auto
  from generateResponse_post [OF g] Cons.prems have "priority_ordered s1"
    by (rule loop_post_ordered)
  from Cons.IH [OF this] g show ?case by (cases "generate_all bes s1") simp
qed

lemma selection_highest_priority:
  assumes "priority_ordered s"
  shows "case getAvailableProvider s of
           None \<Rightarrow> \<forall>c \<in> set (providerConfigs s). \<not> usedToday c < dailyLimit c
         | Some (i, p) \<Rightarrow>
             i < length (providerConfigs s) \<and>
             usedToday (providerConfigs s ! i) < dailyLimit (providerConfigs s ! i) \<and>
             (\<forall>c \<in> set (providerConfigs s).
                usedToday c < dailyLimit c \<longrightarrow> priority c \<le> priority (providerConfigs s ! i))"
proof (cases "getAvailableProvider s")
  case None
  then have "\<forall>c \<in> set (providerConfigs s). \<not> available (providers s) c"
    by (simp add: getAvailableProvider_None)
  with assms have "\<forall>c \<in> set (providerConfigs s). \<not> usedToday c < dailyLimit c"
    by (auto simp: available_def priority_ordered_def)
  with None show ?thesis by simp
next
  case (Some ip)
  obtain i p where ip: "ip = (i, p)" by (cases ip)
  note sel = getAvailableProvider_Some [OF Some [unfolded ip]]
  have "priority c \<le> priority (providerConfigs s ! i)"
    if c: "c \<in> set (providerConfigs s)" and q: "usedToday c < dailyLimit c" for c
  proof -
    from c obtain k where k: "k < length (providerConfigs s)" "c = providerConfigs s ! k"
      by (auto simp: in_set_conv_nth)
    from assms c q have "available (providers s) c"
      by (auto simp: available_def priority_ordered_def)
    with sel(4) k have "\<not> k < i" by auto
    then consider "k = i" | "i < k" by linarith
    then show ?thesis
    proof cases
      case 1
      with k show ?thesis by simp
    next
      case 2
      with assms k show ?thesis
        by (auto simp: priority_ordered_def sorted_wrt_iff_nth_less)
    qed
  qed
  with sel Some ip show ?thesis by simp
qed

subsection \<open>Calls that succeed\<close>

lemma generateResponse_success:
  assumes "always_succeeds be"
  shows "\<exists>res. generateResponse be s =
           (case getAvailableProvider s of
              None \<Rightarrow> (s, [], Inl AllProvidersExhausted)
            | Some (i, p) \<Rightarrow>
                (set_usedToday i (usedToday (providerConfigs s ! i) + 1) s, [(i, None)], Inr res)) \<and>
           (\<forall>i p. getAvailableProvider s = Some (i, p) \<longrightarrow>
              providerId res = cfg_id (providerConfigs s ! i) \<and> providerType res = p)"
proof -
  from assms obtain pr where pr: "promptResult be = Inr pr"
    by (auto simp: always_succeeds_def)
  show ?thesis
  proof (cases "getAvailableProvider s")
    case None
    with pr show ?thesis by (simp add: generateResponse_def maxRetries_def eval_nat_numeral)
  next
    case (Some ip)
    obtain i p where ip: "ip = (i, p)" by (cases ip)
    from assms obtain t a b m where "invoke be 0 (providerConfigs s ! i) = ApiOk t a b m"
      unfolding always_succeeds_def by blast
    with pr Some ip show ?thesis
      by (simp add: generateResponse_def maxRetries_def eval_nat_numeral Let_def)
  qed
qed

lemma generate_all_success:
  assumes "always_succeeds be"
  shows "fst (generate_all (be # bes) s) =
           (case getAvailableProvider s of
              None \<Rightarrow> fst (generate_all bes s)
            | Some (i, p) \<Rightarrow>
                fst (generate_all bes (set_usedToday i (usedToday (providerConfigs s ! i) + 1) s)))"
    and "map routed (snd (generate_all (be # bes) s)) =
           (case getAvailableProvider s of
              None \<Rightarrow> Inl AllProvidersExhausted # map routed (snd (generate_all bes s))
            | Some (i, p) \<Rightarrow>
                Inr (cfg_id (providerConfigs s ! i)) #
                map routed (snd (generate_all bes
                  (set_usedToday i (usedToday (providerConfigs s ! i) + 1) s))))"
  using generateResponse_success [OF assms, of s]
  by (auto simp: routed_def split: prod.splits option.splits)

lemma scenario_16_calls:
  assumes "length bes = 16" "\<forall>be \<in> set bes. always_succeeds be"
  shows "map routed (snd (generate_all bes (loadProviders scenario_rows))) =
           replicate 5 (Inr ''p30'') @ replicate 5 (Inr ''p20'') @ replicate 5 (Inr ''p10'') @
           [Inl AllProvidersExhausted]"
    and "map usedToday (providerConfigs (fst (generate_all bes (loadProviders scenario_rows)))) = [5, 5, 5]"
  using assms
  by (auto simp: eval_nat_numeral length_Suc_conv generate_all_success
      getAvailableProvider_def loadProviders_def scenario_rows_def set_usedToday_def
      simp del: generate_all.simps(2))

lemma answering_succeeds: "always_succeeds answering"
  by (simp add: always_succeeds_def answering_def)

text \<open>
  C1. From a pool loaded in descending priority, and after any calls whatever, the scan
  selects a provider under its quota whose priority no other provider under quota
  exceeds, and selects nobody only when no provider is under quota. In the scenario
  (priorities 30, 20, 10, quotas 5, nothing used) 16 calls whose prompt and provider
  invocations all succeed are served five times by the priority-30 provider, five
  times by the priority-20 one, five times by the priority-10 one, and the 16th fails
  with the all-exhausted error; the three counters end at 5.
\<close>

theorem priority_failover:
  "(sorted_wrt (\<lambda>a b. priority b \<le> priority a) rows \<longrightarrow>
      (let s = fst (generate_all pre (loadProviders rows)) in
       case getAvailableProvider s of
         None \<Rightarrow> \<forall>c \<in> set (providerConfigs s). \<not> usedToday c < dailyLimit c
       | Some (i, p) \<Rightarrow>
           i < length (providerConfigs s) \<and>
           usedToday (providerConfigs s ! i) < dailyLimit (providerConfigs s ! i) \<and>
           (\<forall>c \<in> set (providerConfigs s).
              usedToday c < dailyLimit c \<longrightarrow> priority c \<le> priority (providerConfigs s ! i)))) \<and>
   (length bes = 16 \<and> (\<forall>be \<in> set bes. always_succeeds be) \<longrightarrow>
      map routed (snd (generate_all bes (loadProviders scenario_rows))) =
        replicate 5 (Inr ''p30'') @ replicate 5 (Inr ''p20'') @ replicate 5 (Inr ''p10'') @
        [Inl AllProvidersExhausted] \<and>
      map usedToday (providerConfigs (fst (generate_all bes (loadProviders scenario_rows)))) =
        [5, 5, 5])"
proof (intro conjI impI)
  assume "sorted_wrt (\<lambda>a b. priority b \<le> priority a) rows"
  then have "priority_ordered (fst (generate_all pre (loadProviders rows)))"
    by (intro generate_all_ordered loadProviders_ordered)
  from selection_highest_priority [OF this]
  show "let s = fst (generate_all pre (loadProviders rows)) in
       case getAvailableProvider s of
         None \<Rightarrow> \<forall>c \<in> set (providerConfigs s). \<not> usedToday c < dailyLimit c
       | Some (i, p) \<Rightarrow>
           i < length (providerConfigs s) \<and>
           usedToday (providerConfigs s ! i) < dailyLimit (providerConfigs s ! i) \<and>
           (\<forall>c \<in> set (providerConfigs s).
              usedToday c < dailyLimit c \<longrightarrow> priority c \<le> priority (providerConfigs s ! i))"
    by (simp add: Let_def)
next
  assume a: "length bes = 16 \<and> (\<forall>be \<in> set bes. always_succeeds be)"
  then show "map routed (snd (generate_all bes (loadProviders scenario_rows))) =
        replicate 5 (Inr ''p30'') @ replicate 5 (Inr ''p20'') @ replicate 5 (Inr ''p10'') @
        [Inl AllProvidersExhausted]"
    by (intro scenario_16_calls) simp_all
  from a show "map usedToday (providerConfigs (fst (generate_all bes (loadProviders scenario_rows)))) =
        [5, 5, 5]"
    by (intro scenario_16_calls) simp_all
qed

theorem priority_failover_witness:
  "sorted_wrt (\<lambda>a b. priority b \<le> priority a) scenario_rows \<and>
   getAvailableProvider (fst (generate_all (replicate 7 answering) (loadProviders scenario_rows))) =
     Some (1, GEMINI) \<and>
   length (replicate 16 answering) = 16 \<and> always_succeeds answering \<and>
   map routed (snd (generate_all (replicate 16 answering) (loadProviders scenario_rows))) =
     [Inr ''p30'', Inr ''p30'', Inr ''p30'', Inr ''p30'', Inr ''p30'',
      Inr ''p20'', Inr ''p20'', Inr ''p20'', Inr ''p20'', Inr ''p20'',
      Inr ''p10'', Inr ''p10'', Inr ''p10'', Inr ''p10'', Inr ''p10'',
      Inl AllProvidersExhausted]"
proof -
  have sorted: "sorted_wrt (\<lambda>a b. priority b \<le> priority a) scenario_rows"
    by (simp add: scenario_rows_def)
  have sel: "getAvailableProvider (fst (generate_all (replicate 7 answering) (loadProviders scenario_rows))) =
      Some (1, GEMINI)"
    by (simp add: eval_nat_numeral generate_all_success [OF answering_succeeds]
        getAvailableProvider_def loadProviders_def scenario_rows_def set_usedToday_def
        del: generate_all.simps(2))
  from priority_failover [of scenario_rows "replicate 7 answering" "replicate 16 answering"]
  show ?thesis using sorted sel answering_succeeds
    by (simp add: eval_nat_numeral)
qed

subsection \<open>Failures inside one call\<close>

lemma generateResponse_result:
  assumes "generateResponse be s = (s', tr, r)"
    and "length tr = maxRetries" and "\<forall>x \<in> set tr. snd x \<noteq> None"
  shows "\<exists>e. snd (last tr) = Some e \<and> r = Inl (ProviderError e)"
proof (cases "promptResult be")
  case (Inl e)
  with assms(1,2) show ?thesis by (auto simp: generateResponse_def maxRetries_def)
next
  case (Inr p)
  with assms(1) have loop: "retry_loop maxRetries 0 (invoke be) None s = (s', tr, r)"
    by (simp add: generateResponse_def)
  from assms(2) have ne: "tr \<noteq> []" by (auto simp: maxRetries_def)
  with assms(3) have failed: "snd (last tr) \<noteq> None" by simp
  note res = retry_loop_result [OF loop]
  show ?thesis
  proof (cases r)
    case (Inr ok)
    with res failed show ?thesis by simp
  next
    case (Inl err)
    with res assms(2) ne show ?thesis by (cases err) auto
  qed
qed

text \<open>
  C3. In one call of \<^verbatim>\<open>generateResponse\<close> no config is selected twice, so a provider whose
  invocation threw is not selected at a later attempt; when the call returns, the
  counter of every provider that threw equals its daily limit, which the call did not
  change; and when all \<^verbatim>\<open>maxRetries\<close> attempts invoked a provider and each threw, the call
  fails with the error of the last invocation.
\<close>

theorem failed_provider_excluded:
  assumes "generateResponse be s = (s', tr, r)"
  shows "distinct (map fst tr) \<and>
         (\<forall>x \<in> set tr. snd x \<noteq> None \<longrightarrow>
            usedToday (providerConfigs s' ! fst x) = dailyLimit (providerConfigs s' ! fst x) \<and>
            dailyLimit (providerConfigs s' ! fst x) = dailyLimit (providerConfigs s ! fst x)) \<and>
         (length tr = maxRetries \<and> (\<forall>x \<in> set tr. snd x \<noteq> None) \<longrightarrow>
            (\<exists>e. snd (last tr) = Some e \<and> r = Inl (ProviderError e)))"
proof (intro conjI ballI impI)
  note post = generateResponse_post [OF assms]
  show "distinct (map fst tr)"
    using post by (simp add: loop_post_def)
  fix x assume x: "x \<in> set tr" and failed: "snd x \<noteq> None"
  from post x have k: "fst x < length (providerConfigs s)"
    by (auto simp: loop_post_def)
  have once: "(fst x, None) \<notin> set tr"
  proof
    assume "(fst x, None) \<in> set tr"
    moreover from post have "inj_on fst (set tr)"
      by (simp add: loop_post_def distinct_map)
    ultimately have "(fst x, None) = x" using x
      by (intro inj_onD [of fst "set tr"]) simp_all
    then have "snd x = None" by (metis snd_conv)
    with failed show False by simp
  qed
  from post k show lim: "dailyLimit (providerConfigs s' ! fst x) = dailyLimit (providerConfigs s ! fst x)"
    by (simp add: loop_post_def)
  from post k once x have "usedToday (providerConfigs s' ! fst x) = dailyLimit (providerConfigs s ! fst x)"
    by (auto simp: loop_post_def)
  with lim show "usedToday (providerConfigs s' ! fst x) = dailyLimit (providerConfigs s' ! fst x)"
    by simp
next
  assume "length tr = maxRetries \<and> (\<forall>x \<in> set tr. snd x \<noteq> None)"
  with generateResponse_result [OF assms]
  show "\<exists>e. snd (last tr) = Some e \<and> r = Inl (ProviderError e)" by blast
qed

lemma failing_run:
  "generateResponse failing (loadProviders scenario_rows) =
     (set_usedToday 2 5 (set_usedToday 1 5 (set_usedToday 0 5 (loadProviders scenario_rows))),
      [(0, Some ''p30''), (1, Some ''p20''), (2, Some ''p10'')],
      Inl (ProviderError ''p10''))"
  by (simp add: generateResponse_def failing_def maxRetries_def eval_nat_numeral
      getAvailableProvider_def loadProviders_def scenario_rows_def set_usedToday_def)

theorem failed_provider_excluded_witness:
  "generateResponse failing (loadProviders scenario_rows) =
     (set_usedToday 2 5 (set_usedToday 1 5 (set_usedToday 0 5 (loadProviders scenario_rows))),
      [(0, Some ''p30''), (1, Some ''p20''), (2, Some ''p10'')],
      Inl (ProviderError ''p10'')) \<and>
   map usedToday (providerConfigs
     (set_usedToday 2 5 (set_usedToday 1 5 (set_usedToday 0 5 (loadProviders scenario_rows))))) =
     [5, 5, 5] \<and>
   length [(0::nat, Some ''p30''), (1, Some ''p20''), (2, Some ''p10'')] = maxRetries"
  using failed_provider_excluded [OF failing_run] failing_run
  by (simp add: maxRetries_def loadProviders_def scenario_rows_def set_usedToday_def)

subsection \<open>A pool with no quota left\<close>

text \<open>
  C4. When the prompt is built and every config of the pool has used its daily limit or
  more, \<^verbatim>\<open>generateResponse\<close> fails with the all-exhausted error at the first pass of the
  loop: no provider is invoked and the service is as it was.
\<close>

theorem all_exhausted_immediately:
  assumes "promptResult be = Inr p"
    and "\<forall>c \<in> set (providerConfigs s). dailyLimit c \<le> usedToday c"
  shows "generateResponse be s = (s, [], Inl AllProvidersExhausted)"
proof -
  from assms(2) have "\<forall>c \<in> set (providerConfigs s). \<not> available (providers s) c"
    by (auto simp: available_def)
  then have "getAvailableProvider s = None"
    by (simp add: getAvailableProvider_None)
  with assms(1) show ?thesis
    by (simp add: generateResponse_def maxRetries_def eval_nat_numeral)
qed

theorem all_exhausted_immediately_witness:
  "generateResponse answering
     (set_usedToday 2 5 (set_usedToday 1 6 (set_usedToday 0 5 (loadProviders scenario_rows)))) =
   (set_usedToday 2 5 (set_usedToday 1 6 (set_usedToday 0 5 (loadProviders scenario_rows))),
    [], Inl AllProvidersExhausted)"
  using all_exhausted_immediately [of answering "''prompt''"
      "set_usedToday 2 5 (set_usedToday 1 6 (set_usedToday 0 5 (loadProviders scenario_rows)))"]
  by (simp add: answering_def loadProviders_def scenario_rows_def set_usedToday_def)

subsection \<open>The counter and the limit\<close>



subsection \<open>The steps of a call between its awaits\<close>

















section \<open>The supervisor: ingestion, rate window, sending and connection updates\<close>

subsection \<open>Unrecognized content\<close>

lemma classify_unsupported:
  "contentType m \<notin> Some ` set supported_kinds \<Longrightarrow> classify m = (TEXT, ''[Unsupported message type]'')"
  by (simp add: classify_def supported_kinds_def Let_def)

lemma incoming_append:
  "incoming d a (xs @ ys) = incoming d a xs @ incoming d a ys"
  by (induction xs) (auto split: option.splits)

text \<open>
  C2, as the code has it. A message with content whose discriminator is none of the nine
  that \<^verbatim>\<open>parseMessage\<close> has a case for (or is missing), and with a sender address, is
  parsed into a record whose content is the placeholder \<^verbatim>\<open>[Unsupported message type]\<close> and
  whose type is \<^verbatim>\<open>TEXT\<close>, the value the variable was initialised with: the default branch
  assigns the content only. No error is raised. The handler emits the record only from
  an upsert of the type \<^verbatim>\<open>notify\<close>, and then in the place the message has in its batch;
  a message the account sent itself is passed over. A message with content but without
  a sender address is parsed to \<^verbatim>\<open>null\<close> and nothing is emitted for it, and an upsert of
  any other type leaves the service as it was.
\<close>

theorem unsupported_content_placeholder:
  "(wa_message msg = Some m \<and> contentType m \<notin> Some ` set supported_kinds \<and>
    remoteJid msg = Some sender \<and> sender \<noteq> [] \<longrightarrow>
      (\<exists>p. parseMessage d a msg uuid t = Some p \<and>
           msg_type p = TEXT \<and> msg_content p = ''[Unsupported message type]'' \<and>
           msg_to p = a \<and> msg_from p = extractPhoneNumber d sender \<and>
           emitted (handleIncomingMessages d a ''notify'' (before @ (msg, uuid, t) # after) s) =
             emitted s @ incoming d a before @
             (if fromMe msg then [] else [Message a p]) @ incoming d a after)) \<and>
   (remoteJid msg = None \<or> remoteJid msg = Some [] \<longrightarrow>
      parseMessage d a msg uuid t = None \<and>
      emitted (handleIncomingMessages d a ''notify'' (before @ (msg, uuid, t) # after) s) =
        emitted s @ incoming d a before @ incoming d a after) \<and>
   (upsertType \<noteq> ''notify'' \<longrightarrow>
      handleIncomingMessages d a upsertType (before @ (msg, uuid, t) # after) s = s)"
proof (intro conjI impI)
  assume h: "wa_message msg = Some m \<and> contentType m \<notin> Some ` set supported_kinds \<and>
    remoteJid msg = Some sender \<and> sender \<noteq> []"
  then have "classify m = (TEXT, ''[Unsupported message type]'')"
    by (intro classify_unsupported) simp
  with h show "\<exists>p. parseMessage d a msg uuid t = Some p \<and>
           msg_type p = TEXT \<and> msg_content p = ''[Unsupported message type]'' \<and>
           msg_to p = a \<and> msg_from p = extractPhoneNumber d sender \<and>
           emitted (handleIncomingMessages d a ''notify'' (before @ (msg, uuid, t) # after) s) =
             emitted s @ incoming d a before @
             (if fromMe msg then [] else [Message a p]) @ incoming d a after"
    by (simp add: parseMessage_def handleIncomingMessages_def incoming_append)
next
  assume h: "remoteJid msg = None \<or> remoteJid msg = Some []"
  then show none: "parseMessage d a msg uuid t = None"
    by (auto simp: parseMessage_def split: option.splits)
  then show "emitted (handleIncomingMessages d a ''notify'' (before @ (msg, uuid, t) # after) s) =
        emitted s @ incoming d a before @ incoming d a after"
    by (simp add: handleIncomingMessages_def incoming_append)
next
  assume "upsertType \<noteq> ''notify''"
  then show "handleIncomingMessages d a upsertType (before @ (msg, uuid, t) # after) s = s"
    by (simp add: handleIncomingMessages_def)
qed

theorem unsupported_content_placeholder_witness:
  "wa_message poll_message \<noteq> None \<and>
   map_option contentType (wa_message poll_message) = Some (Some ''pollCreationMessage'') \<and>
   Some ''pollCreationMessage'' \<notin> Some ` set supported_kinds \<and>
   map_option msg_content (parseMessage plain_deps ''acc1'' poll_message ''uuid-1'' 5) =
     Some ''[Unsupported message type]'' \<and>
   map_option msg_from (parseMessage plain_deps ''acc1'' poll_message ''uuid-1'' 5) =
     Some ''923001234567'' \<and>
   ''append'' \<noteq> ''notify'' \<and>
   handleIncomingMessages plain_deps ''acc1'' ''append'' [(poll_message, ''uuid-1'', 5)]
     fresh_service = fresh_service \<and>
   remoteJid (poll_message\<lparr>remoteJid := None\<rparr>) = None \<and>
   parseMessage plain_deps ''acc1'' (poll_message\<lparr>remoteJid := None\<rparr>) ''uuid-1'' 5 = None"
proof -
  from unsupported_content_placeholder [where msg = poll_message
      and m = "the (wa_message poll_message)" and sender = "''923001234567@s.whatsapp.net''"
      and d = plain_deps and a = "''acc1''" and uuid = "''uuid-1''" and t = 5
      and before = "[]" and after = "[]" and s = fresh_service and upsertType = "''append''"]
  have one: "map_option msg_content (parseMessage plain_deps ''acc1'' poll_message ''uuid-1'' 5) =
       Some ''[Unsupported message type]'' \<and>
     map_option msg_from (parseMessage plain_deps ''acc1'' poll_message ''uuid-1'' 5) =
       Some ''923001234567'' \<and>
     handleIncomingMessages plain_deps ''acc1'' ''append'' [(poll_message, ''uuid-1'', 5)]
       fresh_service = fresh_service"
    by (auto simp add: poll_message_def supported_kinds_def plain_deps_def)
  from unsupported_content_placeholder [where msg = "poll_message\<lparr>remoteJid := None\<rparr>"
      and d = plain_deps and a = "''acc1''" and uuid = "''uuid-1''" and t = 5]
  have two: "parseMessage plain_deps ''acc1'' (poll_message\<lparr>remoteJid := None\<rparr>) ''uuid-1'' 5 = None"
    by simp
  from one two show ?thesis
    by (simp add: poll_message_def supported_kinds_def)
qed

text \<open>
  The claim as the spec words it fails: the record of a poll has the type \<^verbatim>\<open>TEXT\<close>, not
  the unsupported kind; the same poll without a sender address is dropped; and so is
  the poll itself when it comes in an upsert of the type \<^verbatim>\<open>append\<close> or was sent by the
  account.
\<close>

theorem unsupported_kind_counterexample:
  "map_option msg_type (parseMessage plain_deps ''acc1'' poll_message ''uuid-1'' 5) = Some TEXT \<and>
   map_option msg_type (parseMessage plain_deps ''acc1'' poll_message ''uuid-1'' 5) \<noteq> Some UNSUPPORTED \<and>
   parseMessage plain_deps ''acc1'' (poll_message\<lparr>remoteJid := None\<rparr>) ''uuid-1'' 5 = None \<and>
   emitted (handleIncomingMessages plain_deps ''acc1'' ''notify''
              [(poll_message\<lparr>remoteJid := None\<rparr>, ''uuid-1'', 5)] fresh_service) = [] \<and>
   emitted (handleIncomingMessages plain_deps ''acc1'' ''append''
              [(poll_message, ''uuid-1'', 5)] fresh_service) = [] \<and>
   emitted (handleIncomingMessages plain_deps ''acc1'' ''notify''
              [(poll_message\<lparr>fromMe := True\<rparr>, ''uuid-1'', 5)] fresh_service) = []"
  by (simp add: parseMessage_def handleIncomingMessages_def poll_message_def classify_def
      plain_deps_def fresh_service_def Let_def)

subsection \<open>The rate window\<close>

lemma queue_of_checkRateLimit:
  "queue_of (fst (checkRateLimit t r s)) r = filter (\<lambda>m. t - timestamp m < rateLimitWindow) (queue_of s r)"
  "snd (checkRateLimit t r s) =
     (length (filter (\<lambda>m. t - timestamp m < rateLimitWindow) (queue_of s r)) < maxMessagesPerWindow)"
  by (simp_all add: checkRateLimit_def queue_of_def Let_def)

lemma queue_of_recordMessage:
  "queue_of (recordMessage t r s) r = queue_of s r @ [\<lparr>message = [], timestamp = t\<rparr>]"
  by (simp add: recordMessage_def queue_of_def Let_def)


subsection \<open>What the small steps change\<close>

lemma set_instance_fields [simp]:
  "instances (set_instance a i s) = AList.update a i (instances s)"
  "messageQueue (set_instance a i s) = messageQueue s"
  "isShuttingDown (set_instance a i s) = isShuttingDown s"
  "sockets (set_instance a i s) = sockets s"
  "sleeping (set_instance a i s) = sleeping s"
  "sessionDirs (set_instance a i s) = sessionDirs s"
  "accountStatus (set_instance a i s) = accountStatus s"
  "emitted (set_instance a i s) = emitted s"
  "dispatched (set_instance a i s) = dispatched s"
  by (simp_all add: set_instance_def)

lemma delete_instance_fields [simp]:
  "instances (delete_instance a s) = AList.delete a (instances s)"
  "messageQueue (delete_instance a s) = messageQueue s"
  "isShuttingDown (delete_instance a s) = isShuttingDown s"
  "sockets (delete_instance a s) = sockets s"
  "sleeping (delete_instance a s) = sleeping s"
  "sessionDirs (delete_instance a s) = sessionDirs s"
  "accountStatus (delete_instance a s) = accountStatus s"
  "emitted (delete_instance a s) = emitted s"
  "dispatched (delete_instance a s) = dispatched s"
  by (simp_all add: delete_instance_def)

lemma emit_fields [simp]:
  "instances (emit e s) = instances s"
  "messageQueue (emit e s) = messageQueue s"
  "isShuttingDown (emit e s) = isShuttingDown s"
  "sockets (emit e s) = sockets s"
  "sleeping (emit e s) = sleeping s"
  "sessionDirs (emit e s) = sessionDirs s"
  "accountStatus (emit e s) = accountStatus s"
  "emitted (emit e s) = emitted s @ [e]"
  "dispatched (emit e s) = dispatched s"
  by (simp_all add: emit_def)

lemma get_instance_set [simp]:
  "get_instance (set_instance a i s) b = (if b = a then Some i else get_instance s b)"
  by (simp add: get_instance_def update_conv')

lemma get_instance_delete [simp]:
  "get_instance (delete_instance a s) b = (if b = a then None else get_instance s b)"
  by (simp add: get_instance_def delete_conv')

lemma get_instance_emit [simp]: "get_instance (emit e s) b = get_instance s b"
  by (simp add: get_instance_def)

lemma get_instance_other_fields [simp]:
  "get_instance (s\<lparr>messageQueue := mq\<rparr>) b = get_instance s b"
  "get_instance (s\<lparr>isShuttingDown := sd\<rparr>) b = get_instance s b"
  "get_instance (s\<lparr>sockets := so\<rparr>) b = get_instance s b"
  "get_instance (s\<lparr>sleeping := sl\<rparr>) b = get_instance s b"
  "get_instance (s\<lparr>sessionDirs := se\<rparr>) b = get_instance s b"
  "get_instance (s\<lparr>accountStatus := st\<rparr>) b = get_instance s b"
  "get_instance (s\<lparr>emitted := em\<rparr>) b = get_instance s b"
  "get_instance (s\<lparr>dispatched := di\<rparr>) b = get_instance s b"
  by (simp_all add: get_instance_def)

lemma queue_of_other_fields [simp]:
  "queue_of (set_instance a i s) r = queue_of s r"
  "queue_of (delete_instance a s) r = queue_of s r"
  "queue_of (emit e s) r = queue_of s r"
  "queue_of (s\<lparr>dispatched := di\<rparr>) r = queue_of s r"
  by (simp_all add: queue_of_def)

lemma updateAccountStatus_fields [simp]:
  "messageQueue (updateAccountStatus a st ok s) = messageQueue s"
  "isShuttingDown (updateAccountStatus a st ok s) = isShuttingDown s"
  "sockets (updateAccountStatus a st ok s) = sockets s"
  "sleeping (updateAccountStatus a st ok s) = sleeping s"
  "sessionDirs (updateAccountStatus a st ok s) = sessionDirs s"
  "emitted (updateAccountStatus a st ok s) = emitted s"
  "dispatched (updateAccountStatus a st ok s) = dispatched s"
  "accountStatus (updateAccountStatus a st ok s) =
     (if ok then (accountStatus s)(a \<mapsto> st) else accountStatus s)"
  by (simp_all add: updateAccountStatus_def Let_def split: option.splits)

lemma get_instance_updateAccountStatus [simp]:
  "get_instance (updateAccountStatus a st ok s) b =
     (if ok \<and> b = a then map_option (\<lambda>i. i\<lparr>status := st\<rparr>) (get_instance s a)
      else get_instance s b)"
  by (simp add: updateAccountStatus_def Let_def split: option.splits)

lemma checkRateLimit_fields [simp]:
  "instances (fst (checkRateLimit t r s)) = instances s"
  "isShuttingDown (fst (checkRateLimit t r s)) = isShuttingDown s"
  "sockets (fst (checkRateLimit t r s)) = sockets s"
  "sleeping (fst (checkRateLimit t r s)) = sleeping s"
  "sessionDirs (fst (checkRateLimit t r s)) = sessionDirs s"
  "accountStatus (fst (checkRateLimit t r s)) = accountStatus s"
  "emitted (fst (checkRateLimit t r s)) = emitted s"
  "dispatched (fst (checkRateLimit t r s)) = dispatched s"
  "get_instance (fst (checkRateLimit t r s)) b = get_instance s b"
  by (simp_all add: checkRateLimit_def Let_def get_instance_def)

lemma recordMessage_fields [simp]:
  "instances (recordMessage t r s) = instances s"
  "isShuttingDown (recordMessage t r s) = isShuttingDown s"
  "sockets (recordMessage t r s) = sockets s"
  "sleeping (recordMessage t r s) = sleeping s"
  "sessionDirs (recordMessage t r s) = sessionDirs s"
  "accountStatus (recordMessage t r s) = accountStatus s"
  "emitted (recordMessage t r s) = emitted s"
  "dispatched (recordMessage t r s) = dispatched s"
  "get_instance (recordMessage t r s) b = get_instance s b"
  by (simp_all add: recordMessage_def Let_def get_instance_def)

lemma online_eq:
  "online =
     \<lparr>instances = [(''acc1'', \<lparr>socket = Some 0, accountId = ''acc1'', status = CONNECTED,
                              reconnectAttempts = 0, lastActivity = 1000\<rparr>)],
      messageQueue = Map.empty, isShuttingDown = False,
      sockets = [\<lparr>sock_account = ''acc1'', listening = True, logoutCalled = False\<rparr>],
      sleeping = [], sessionDirs = {''sessions/session_acc1''},
      accountStatus = [''acc1'' \<mapsto> CONNECTED],
      emitted = [Connected ''acc1'' (Some ''923009999999:1'')], dispatched = []\<rparr>"
  by (simp add: online_def run_def fresh_service_def initializeAccount_def connectAccount_def
      handleConnectionUpdate_def qr_branch_def close_branch_def open_branch_def
      set_instance_def get_instance_def emit_def getSessionPath_def plain_deps_def calm_def
      open_update_def Let_def)


subsection \<open>Sending\<close>

lemma admits_checkRateLimit: "snd (checkRateLimit t r s) = admits t r s"
  by (simp add: admits_def queue_of_checkRateLimit)

lemma sendMessage_not_connected:
  "\<not> connected s a \<Longrightarrow> sendMessage d a to c options w s = (s, Inl NotConnected)"
  by (auto simp: connected_def sendMessage_def split: option.splits)

lemma sendMessage_connected:
  assumes "connected s a"
  shows "sendMessage d a to c options w s =
     (let s1 = fst (checkRateLimit (checkedAt w) to s) in
      if \<not> admits (checkedAt w) to s then (s1, Inl RateLimited)
      else case build_payload c options w of
             Inl e \<Rightarrow> (s1, Inl (SendFailed e))
           | Inr payload \<Rightarrow>
               (case delivery w of
                  Inl e \<Rightarrow> (s1, Inl (SendFailed e))
                | Inr result \<Rightarrow>
                    (set_instance a ((the (get_instance s a))\<lparr>lastActivity := activeAt w\<rparr>)
                       (recordMessage (recordedAt w) to
                          (s1\<lparr>dispatched := dispatched s1 @
                               [(the (socket (the (get_instance s a))), sanitizePhoneNumber d to, payload)]\<rparr>)),
                     Inr result)))"
proof -
  from assms obtain i k where i: "get_instance s a = Some i" "socket i = Some k" "status i = CONNECTED"
    by (auto simp: connected_def split: option.splits)
  obtain s1 ok where chk: "checkRateLimit (checkedAt w) to s = (s1, ok)"
    by (cases "checkRateLimit (checkedAt w) to s")
  with admits_checkRateLimit [of "checkedAt w" to s] have ok: "ok = admits (checkedAt w) to s" by simp
  show ?thesis
    using i chk ok by (simp add: sendMessage_def Let_def split: sum.splits)
qed

text \<open>
  C9. A call of \<^verbatim>\<open>sendMessage\<close> for an account that is not connected (no instance, no
  socket, or a status other than \<^verbatim>\<open>CONNECTED\<close>) fails with the not-connected error and
  changes nothing. For a connected account whose recipient the rate window does not
  admit, it fails with the rate-limit error: nothing is dispatched or recorded, the
  queue is pruned only. For a connected account and an admitted recipient the call
  either returns what the socket returned, and then the send is recorded after the
  pruned queue and \<^verbatim>\<open>lastActivity\<close> is the time of the update, or it fails with the error
  of the media fetch or of the socket, and then nothing is recorded. There is no other
  outcome.
\<close>

theorem sendMessage_outcomes:
  "(\<not> connected s a \<longrightarrow> sendMessage d a to c options w s = (s, Inl NotConnected)) \<and>
   ((\<forall>i. get_instance s a = Some i \<longrightarrow> status i \<noteq> CONNECTED) \<longrightarrow> \<not> connected s a) \<and>
   (connected s a \<and> \<not> admits (checkedAt w) to s \<longrightarrow>
      snd (sendMessage d a to c options w s) = Inl RateLimited \<and>
      dispatched (fst (sendMessage d a to c options w s)) = dispatched s \<and>
      instances (fst (sendMessage d a to c options w s)) = instances s \<and>
      queue_of (fst (sendMessage d a to c options w s)) to =
        filter (\<lambda>m. checkedAt w - timestamp m < rateLimitWindow) (queue_of s to)) \<and>
   (connected s a \<and> admits (checkedAt w) to s \<longrightarrow>
      (\<exists>result. snd (sendMessage d a to c options w s) = Inr result \<and>
         delivery w = Inr result \<and>
         queue_of (fst (sendMessage d a to c options w s)) to =
           filter (\<lambda>m. checkedAt w - timestamp m < rateLimitWindow) (queue_of s to) @
           [\<lparr>message = [], timestamp = recordedAt w\<rparr>] \<and>
         map_option lastActivity (get_instance (fst (sendMessage d a to c options w s)) a) =
           Some (activeAt w) \<and>
         length (dispatched (fst (sendMessage d a to c options w s))) = Suc (length (dispatched s))) \<or>
      (\<exists>e. snd (sendMessage d a to c options w s) = Inl (SendFailed e) \<and>
         (build_payload c options w = Inl e \<or> delivery w = Inl e) \<and>
         dispatched (fst (sendMessage d a to c options w s)) = dispatched s \<and>
         instances (fst (sendMessage d a to c options w s)) = instances s \<and>
         queue_of (fst (sendMessage d a to c options w s)) to =
           filter (\<lambda>m. checkedAt w - timestamp m < rateLimitWindow) (queue_of s to))) \<and>
   (case snd (sendMessage d a to c options w s) of
      Inr result \<Rightarrow> True
    | Inl NotConnected \<Rightarrow> True
    | Inl RateLimited \<Rightarrow> True
    | Inl (SendFailed e) \<Rightarrow> True
    | Inl other \<Rightarrow> False)"
proof (intro conjI impI)
  assume "\<not> connected s a"
  then show "sendMessage d a to c options w s = (s, Inl NotConnected)"
    by (rule sendMessage_not_connected)
next
  assume "\<forall>i. get_instance s a = Some i \<longrightarrow> status i \<noteq> CONNECTED"
  then show "\<not> connected s a"
    by (auto simp: connected_def split: option.splits)
next
  assume a: "connected s a \<and> \<not> admits (checkedAt w) to s"
  then have eq: "sendMessage d a to c options w s =
      (fst (checkRateLimit (checkedAt w) to s), Inl RateLimited)"
    by (simp add: sendMessage_connected)
  show "snd (sendMessage d a to c options w s) = Inl RateLimited"
    and "dispatched (fst (sendMessage d a to c options w s)) = dispatched s"
    and "instances (fst (sendMessage d a to c options w s)) = instances s"
    and "queue_of (fst (sendMessage d a to c options w s)) to =
        filter (\<lambda>m. checkedAt w - timestamp m < rateLimitWindow) (queue_of s to)"
    by (simp_all add: eq queue_of_checkRateLimit)
next
  assume a: "connected s a \<and> admits (checkedAt w) to s"
  then obtain i where i: "get_instance s a = Some i"
    by (auto simp: connected_def split: option.splits)
  note eq = sendMessage_connected [of s a d to c options w]
  show "(\<exists>result. snd (sendMessage d a to c options w s) = Inr result \<and>
         delivery w = Inr result \<and>
         queue_of (fst (sendMessage d a to c options w s)) to =
           filter (\<lambda>m. checkedAt w - timestamp m < rateLimitWindow) (queue_of s to) @
           [\<lparr>message = [], timestamp = recordedAt w\<rparr>] \<and>
         map_option lastActivity (get_instance (fst (sendMessage d a to c options w s)) a) =
           Some (activeAt w) \<and>
         length (dispatched (fst (sendMessage d a to c options w s))) = Suc (length (dispatched s))) \<or>
      (\<exists>e. snd (sendMessage d a to c options w s) = Inl (SendFailed e) \<and>
         (build_payload c options w = Inl e \<or> delivery w = Inl e) \<and>
         dispatched (fst (sendMessage d a to c options w s)) = dispatched s \<and>
         instances (fst (sendMessage d a to c options w s)) = instances s \<and>
         queue_of (fst (sendMessage d a to c options w s)) to =
           filter (\<lambda>m. checkedAt w - timestamp m < rateLimitWindow) (queue_of s to))"
  proof (cases "build_payload c options w")
    case (Inl e)
    with a eq show ?thesis by (simp add: queue_of_checkRateLimit)
  next
    case payload: (Inr p)
    show ?thesis
    proof (cases "delivery w")
      case (Inl e)
      with a eq payload show ?thesis by (simp add: queue_of_checkRateLimit)
    next
      case (Inr result)
      with a eq payload i show ?thesis
        by (simp add: queue_of_checkRateLimit queue_of_recordMessage)
    qed
  qed
next
  show "case snd (sendMessage d a to c options w s) of
      Inr result \<Rightarrow> True
    | Inl NotConnected \<Rightarrow> True
    | Inl RateLimited \<Rightarrow> True
    | Inl (SendFailed e) \<Rightarrow> True
    | Inl other \<Rightarrow> False"
  proof (cases "connected s a")
    case False
    then show ?thesis by (simp add: sendMessage_not_connected)
  next
    case True
    then show ?thesis
      by (simp add: sendMessage_connected Let_def split: sum.splits)
  qed
qed

lemma online_connected: "connected online ''acc1''"
  by (simp add: online_eq connected_def get_instance_def)

lemma online_admits: "admits 2000 ''923001234567'' online"
  by (simp add: online_eq admits_def queue_of_def maxMessagesPerWindow_def)

lemma full_window:
  "\<not> admits 2000 ''923001234567''
       (online\<lparr>messageQueue := [''923001234567'' \<mapsto> replicate 30 \<lparr>message = [], timestamp = 1500\<rparr>]\<rparr>)"
  by (simp add: admits_def queue_of_def maxMessagesPerWindow_def rateLimitWindow_def)

lemma full_window_connected:
  "connected
     (online\<lparr>messageQueue := [''923001234567'' \<mapsto> replicate 30 \<lparr>message = [], timestamp = 1500\<rparr>]\<rparr>)
     ''acc1''"
  using online_connected by (simp add: connected_def)

theorem sendMessage_outcomes_witness:
  "\<not> connected fresh_service ''acc1'' \<and>
   sendMessage plain_deps ''acc1'' ''923001234567'' ''Salam'' None delivered fresh_service =
     (fresh_service, Inl NotConnected) \<and>
   connected online ''acc1'' \<and>
   admits (checkedAt delivered) ''923001234567'' online \<and>
   snd (sendMessage plain_deps ''acc1'' ''923001234567'' ''Salam'' None delivered online) =
     Inr (Some ''3EB0C7'') \<and>
   queue_of (fst (sendMessage plain_deps ''acc1'' ''923001234567'' ''Salam'' None delivered online))
     ''923001234567'' = [\<lparr>message = [], timestamp = 4000\<rparr>] \<and>
   snd (sendMessage plain_deps ''acc1'' ''923001234567'' ''Salam'' None delivered
     (online\<lparr>messageQueue :=
        [''923001234567'' \<mapsto> replicate 30 \<lparr>message = [], timestamp = 1500\<rparr>]\<rparr>)) =
     Inl RateLimited"
proof -
  have off: "\<not> connected fresh_service ''acc1''"
    by (simp add: connected_def get_instance_def fresh_service_def)
  have at: "checkedAt delivered = 2000" "delivery delivered = Inr (Some ''3EB0C7'')"
    "recordedAt delivered = 4000"
    by (simp_all add: delivered_def)
  have q: "queue_of online ''923001234567'' = []"
    by (simp add: online_eq queue_of_def)
  from sendMessage_outcomes [of fresh_service "''acc1''" plain_deps "''923001234567''" "''Salam''"
      None delivered] off
  have one: "sendMessage plain_deps ''acc1'' ''923001234567'' ''Salam'' None delivered fresh_service =
     (fresh_service, Inl NotConnected)" by blast
  from sendMessage_outcomes [of online "''acc1''" plain_deps "''923001234567''" "''Salam''"
      None delivered] online_connected online_admits
  have two: "snd (sendMessage plain_deps ''acc1'' ''923001234567'' ''Salam'' None delivered online) =
       Inr (Some ''3EB0C7'') \<and>
     queue_of (fst (sendMessage plain_deps ''acc1'' ''923001234567'' ''Salam'' None delivered online))
       ''923001234567'' = [\<lparr>message = [], timestamp = 4000\<rparr>]"
    by (auto simp: at q build_payload_def)
  from sendMessage_outcomes [of
      "online\<lparr>messageQueue := [''923001234567'' \<mapsto> replicate 30 \<lparr>message = [], timestamp = 1500\<rparr>]\<rparr>"
      "''acc1''" plain_deps "''923001234567''" "''Salam''" None delivered]
    full_window full_window_connected
  have three: "snd (sendMessage plain_deps ''acc1'' ''923001234567'' ''Salam'' None delivered
     (online\<lparr>messageQueue :=
        [''923001234567'' \<mapsto> replicate 30 \<lparr>message = [], timestamp = 1500\<rparr>]\<rparr>)) =
     Inl RateLimited"
    by (simp add: at)
  from off one online_connected online_admits two three show ?thesis
    by (simp add: at)
qed


subsection \<open>The rate window under calls that overlap\<close>



















subsection \<open>A close with the logged-out code\<close>

lemma handleLoggedOut_fields:
  "get_instance (handleLoggedOut d a w s) b = (if b = a then None else get_instance s b)"
  "sessionDirs (handleLoggedOut d a w s) =
     (if rmOk w then sessionDirs s - {getSessionPath d a} else sessionDirs s)"
  "accountStatus (handleLoggedOut d a w s) =
     (if dbOk w then (accountStatus s)(a \<mapsto> DISCONNECTED) else accountStatus s)"
  "emitted (handleLoggedOut d a w s) = emitted s @ [Disconnected a logged_out]"
  "sleeping (handleLoggedOut d a w s) = sleeping s"
  "sockets (handleLoggedOut d a w s) = sockets s"
  "isShuttingDown (handleLoggedOut d a w s) = isShuttingDown s"
  "messageQueue (handleLoggedOut d a w s) = messageQueue s"
  "dispatched (handleLoggedOut d a w s) = dispatched s"
  by (simp_all add: handleLoggedOut_def Let_def)

lemma close_logged_out:
  assumes "get_instance s a = Some i"
  shows "handleConnectionUpdate d a (close_update (Some loggedOut)) w s =
           (handleLoggedOut d a w s, Inr ())"
  using assms
  by (simp add: handleConnectionUpdate_def qr_branch_def close_branch_def open_branch_def
      close_update_def)

text \<open>
  C7, as the code has it. For an account that has an instance, a close event with the
  logged-out code ends the handler without an error; afterwards the account has no
  instance, \<^verbatim>\<open>disconnected\<close> with the reason \<^verbatim>\<open>logged_out\<close> is the one event emitted, no
  reconnect is scheduled and no socket opened, and a reconnect of the account that was
  already asleep does nothing when it wakes. The session directory is gone when \<^verbatim>\<open>fs.rm\<close>
  resolved and is left when it threw; the status in the accounts table is
  \<^verbatim>\<open>DISCONNECTED\<close> when the update resolved and is left when it threw. The other accounts
  keep their instances.
\<close>

theorem logged_out_close:
  assumes "get_instance s a = Some i"
  shows "snd (handleConnectionUpdate d a (close_update (Some loggedOut)) w s) = Inr () \<and>
         get_instance (fst (handleConnectionUpdate d a (close_update (Some loggedOut)) w s)) a = None \<and>
         (\<forall>b. b \<noteq> a \<longrightarrow>
            get_instance (fst (handleConnectionUpdate d a (close_update (Some loggedOut)) w s)) b =
              get_instance s b) \<and>
         sessionDirs (fst (handleConnectionUpdate d a (close_update (Some loggedOut)) w s)) =
           (if rmOk w then sessionDirs s - {getSessionPath d a} else sessionDirs s) \<and>
         accountStatus (fst (handleConnectionUpdate d a (close_update (Some loggedOut)) w s)) =
           (if dbOk w then (accountStatus s)(a \<mapsto> DISCONNECTED) else accountStatus s) \<and>
         emitted (fst (handleConnectionUpdate d a (close_update (Some loggedOut)) w s)) =
           emitted s @ [Disconnected a logged_out] \<and>
         sleeping (fst (handleConnectionUpdate d a (close_update (Some loggedOut)) w s)) = sleeping s \<and>
         sockets (fst (handleConnectionUpdate d a (close_update (Some loggedOut)) w s)) = sockets s \<and>
         (\<forall>k w'. k < length (sleeping s) \<and> fst (sleeping s ! k) = a \<longrightarrow>
            sockets (step d (ReconnectWakes k w')
              (fst (handleConnectionUpdate d a (close_update (Some loggedOut)) w s))) = sockets s \<and>
            instances (step d (ReconnectWakes k w')
              (fst (handleConnectionUpdate d a (close_update (Some loggedOut)) w s))) =
              instances (fst (handleConnectionUpdate d a (close_update (Some loggedOut)) w s)))"
  unfolding close_logged_out [OF assms]
  by (simp add: handleLoggedOut_fields handleReconnect_resume_def)

lemma online_instance:
  "get_instance online ''acc1'' =
     Some \<lparr>socket = Some 0, accountId = ''acc1'', status = CONNECTED,
            reconnectAttempts = 0, lastActivity = 1000\<rparr>"
  by (simp add: online_eq get_instance_def)

lemma online_fields:
  "sessionDirs online = {''sessions/session_acc1''}"
  "accountStatus online = [''acc1'' \<mapsto> CONNECTED]"
  "emitted online = [Connected ''acc1'' (Some ''923009999999:1'')]"
  "sleeping online = []"
  "sockets online = [\<lparr>sock_account = ''acc1'', listening = True, logoutCalled = False\<rparr>]"
  "isShuttingDown online = False"
  "instances online =
     [(''acc1'', \<lparr>socket = Some 0, accountId = ''acc1'', status = CONNECTED,
                   reconnectAttempts = 0, lastActivity = 1000\<rparr>)]"
  by (simp_all add: online_eq)

theorem logged_out_close_witness:
  "get_instance online ''acc1'' \<noteq> None \<and>
   getSessionPath plain_deps ''acc1'' \<in> sessionDirs online \<and>
   get_instance (fst (handleConnectionUpdate plain_deps ''acc1'' (close_update (Some loggedOut))
     calm online)) ''acc1'' = None \<and>
   sessionDirs (fst (handleConnectionUpdate plain_deps ''acc1'' (close_update (Some loggedOut))
     calm online)) = {} \<and>
   accountStatus (fst (handleConnectionUpdate plain_deps ''acc1'' (close_update (Some loggedOut))
     calm online)) ''acc1'' = Some DISCONNECTED \<and>
   emitted (fst (handleConnectionUpdate plain_deps ''acc1'' (close_update (Some loggedOut))
     calm online)) =
     [Connected ''acc1'' (Some ''923009999999:1''), Disconnected ''acc1'' logged_out] \<and>
   sleeping (fst (handleConnectionUpdate plain_deps ''acc1'' (close_update (Some loggedOut))
     calm online)) = [] \<and>
   length (sockets (fst (handleConnectionUpdate plain_deps ''acc1'' (close_update (Some loggedOut))
     calm online))) = 1"
  using logged_out_close [OF online_instance, of plain_deps calm] online_instance
  by (simp add: online_fields calm_def getSessionPath_def plain_deps_def)

text \<open>
  The claim as the spec words it fails where the code swallows a failure or returns
  early. With \<^verbatim>\<open>fs.rm\<close> throwing at the first logged-out close, the session directory is
  still there; a second logged-out close for the account, which has no instance by then,
  changes nothing and emits nothing. With the update of the table throwing, the stored
  status stays \<^verbatim>\<open>CONNECTED\<close>.
\<close>

theorem logged_out_close_counterexample:
  "getSessionPath plain_deps ''acc1'' \<in>
     sessionDirs (run plain_deps
       [ConnectionEvent 0 (close_update (Some loggedOut)) (calm\<lparr>rmOk := False\<rparr>),
        ConnectionEvent 0 (close_update (Some loggedOut)) calm] online) \<and>
   emitted (run plain_deps
       [ConnectionEvent 0 (close_update (Some loggedOut)) (calm\<lparr>rmOk := False\<rparr>),
        ConnectionEvent 0 (close_update (Some loggedOut)) calm] online) =
     [Connected ''acc1'' (Some ''923009999999:1''), Disconnected ''acc1'' logged_out] \<and>
   accountStatus (run plain_deps
       [ConnectionEvent 0 (close_update (Some loggedOut)) (calm\<lparr>dbOk := False\<rparr>)] online) ''acc1'' =
     Some CONNECTED"
  by (simp add: run_def online_eq handleConnectionUpdate_def qr_branch_def close_branch_def
      open_branch_def handleLoggedOut_def updateAccountStatus_def close_update_def
      set_instance_def delete_instance_def get_instance_def emit_def getSessionPath_def
      plain_deps_def calm_def Let_def)


subsection \<open>One instance for each account\<close>

lemma keyed_fresh: "keyed fresh_service"
  by (simp add: keyed_def fresh_service_def get_instance_def)

lemma keyed_get: "keyed s \<Longrightarrow> get_instance s a = Some i \<Longrightarrow> accountId i = a"
  by (simp add: keyed_def)

lemma keyed_set: "keyed s \<Longrightarrow> accountId i = a \<Longrightarrow> keyed (set_instance a i s)"
  by (simp add: keyed_def distinct_update)

lemma keyed_delete: "keyed s \<Longrightarrow> keyed (delete_instance a s)"
  by (simp add: keyed_def distinct_delete)

lemma keyed_same_instances: "instances s' = instances s \<Longrightarrow> keyed s' = keyed s"
  by (simp add: keyed_def get_instance_def)

lemma keyed_other_fields [simp]:
  "keyed (emit e s) = keyed s"
  "keyed (s\<lparr>messageQueue := mq\<rparr>) = keyed s"
  "keyed (s\<lparr>isShuttingDown := sd\<rparr>) = keyed s"
  "keyed (s\<lparr>sockets := so\<rparr>) = keyed s"
  "keyed (s\<lparr>sleeping := sl\<rparr>) = keyed s"
  "keyed (s\<lparr>sessionDirs := se\<rparr>) = keyed s"
  "keyed (s\<lparr>accountStatus := st\<rparr>) = keyed s"
  "keyed (s\<lparr>emitted := em\<rparr>) = keyed s"
  "keyed (s\<lparr>dispatched := di\<rparr>) = keyed s"
  "keyed (fst (checkRateLimit t r s)) = keyed s"
  "keyed (recordMessage t r s) = keyed s"
  by (simp_all add: keyed_def get_instance_def)

lemma keyed_updateAccountStatus: "keyed s \<Longrightarrow> keyed (updateAccountStatus a st ok s)"
proof (cases "ok \<and> get_instance s a \<noteq> None")
  case False
  then have "instances (updateAccountStatus a st ok s) = instances s"
    by (auto simp: updateAccountStatus_def Let_def)
  then have "keyed (updateAccountStatus a st ok s) = keyed s"
    by (rule keyed_same_instances)
  then show "keyed s \<Longrightarrow> ?thesis" by simp
next
  case True
  then obtain i where i: "get_instance s a = Some i" by auto
  assume k: "keyed s"
  have "keyed (s\<lparr>accountStatus := (accountStatus s)(a \<mapsto> st)\<rparr>)"
    using k by simp
  moreover have "accountId (i\<lparr>status := st\<rparr>) = a"
    using keyed_get [OF k i] by simp
  ultimately show ?thesis
    using True i by (simp add: updateAccountStatus_def Let_def keyed_set)
qed

lemma keyed_connectAccount: "keyed s \<Longrightarrow> keyed (fst (connectAccount d a w s))"
proof (cases "get_instance s a")
  case None
  then show "keyed s \<Longrightarrow> ?thesis" by (simp add: connectAccount_def)
next
  case (Some i)
  assume k: "keyed s"
  have id: "accountId (i\<lparr>socket := Some n\<rparr>) = a" for n
    using keyed_get [OF k Some] by simp
  show ?thesis
    using Some k id by (simp add: connectAccount_def Let_def keyed_set)
qed

lemma keyed_disconnectAccount: "keyed s \<Longrightarrow> keyed (disconnectAccount a w s)"
proof (cases "get_instance s a")
  case None
  then show "keyed s \<Longrightarrow> ?thesis" by (simp add: disconnectAccount_def)
next
  case (Some i)
  assume k: "keyed s"
  have "keyed (case socket i of
                 None \<Rightarrow> s
               | Some n \<Rightarrow>
                   set_instance a (i\<lparr>socket := None\<rparr>)
                     (s\<lparr>sockets := (sockets s)
                         [n := (sockets s ! n)\<lparr>listening := False, logoutCalled := True\<rparr>]\<rparr>))"
  proof (cases "socket i")
    case None
    with k show ?thesis by simp
  next
    case (Some n)
    have "accountId (i\<lparr>socket := None\<rparr>) = a"
      using keyed_get [OF k \<open>get_instance s a = Some i\<close>] by simp
    then show ?thesis using Some k by (simp add: keyed_set)
  qed
  then show ?thesis
    using Some by (simp add: disconnectAccount_def Let_def keyed_delete keyed_updateAccountStatus)
qed

lemma keyed_initializeAccount: "keyed s \<Longrightarrow> keyed (fst (initializeAccount d a w0 w s))"
proof -
  assume k: "keyed s"
  let ?s1 = "if get_instance s a \<noteq> None then disconnectAccount a w0 s else s"
  let ?s2 = "set_instance a \<lparr>socket = None, accountId = a, status = CONNECTING,
      reconnectAttempts = 0, lastActivity = now w\<rparr> ?s1"
  have "keyed ?s1" using k by (simp add: keyed_disconnectAccount)
  then have "keyed ?s2" by (intro keyed_set) simp_all
  then have k3: "keyed (fst (connectAccount d a w ?s2))" by (rule keyed_connectAccount)
  obtain s3 r where c: "connectAccount d a w ?s2 = (s3, r)"
    by (cases "connectAccount d a w ?s2")
  with k3 have "keyed s3" by simp
  then show ?thesis
    using c by (cases r) (simp_all add: initializeAccount_def Let_def keyed_updateAccountStatus)
qed

lemma keyed_handleLoggedOut: "keyed s \<Longrightarrow> keyed (handleLoggedOut d a w s)"
proof -
  assume k: "keyed s"
  from k show ?thesis
    by (simp add: handleLoggedOut_def Let_def keyed_delete keyed_updateAccountStatus)
qed

lemma keyed_handleReconnect: "keyed s \<Longrightarrow> keyed (handleReconnect a w s)"
proof (cases "get_instance s a")
  case None
  then show "keyed s \<Longrightarrow> ?thesis" by (simp add: handleReconnect_def)
next
  case (Some i)
  assume k: "keyed s"
  have "accountId (i\<lparr>reconnectAttempts := n\<rparr>) = a" for n
    using keyed_get [OF k Some] by simp
  then have "keyed (set_instance a (i\<lparr>reconnectAttempts := n\<rparr>) s)" for n
    using k by (intro keyed_set)
  with k Some show ?thesis
    by (simp add: handleReconnect_def Let_def keyed_updateAccountStatus)
qed

lemma keyed_handleReconnect_resume: "keyed s \<Longrightarrow> keyed (handleReconnect_resume d a w s)"
  by (simp add: handleReconnect_resume_def keyed_connectAccount)

lemma keyed_handleConnectionUpdate:
  "keyed s \<Longrightarrow> keyed (fst (handleConnectionUpdate d a u w s))"
proof (cases "get_instance s a")
  case None
  then show "keyed s \<Longrightarrow> ?thesis" by (simp add: handleConnectionUpdate_def)
next
  case (Some i)
  assume k: "keyed s"
  show ?thesis
  proof (cases "qr_branch a u w s")
    case (Inl e)
    with Some k show ?thesis by (simp add: handleConnectionUpdate_def)
  next
    case (Inr s1)
    then have "instances s1 = instances s"
      by (auto simp: qr_branch_def split: option.splits if_splits)
    then have "keyed s1 = keyed s" by (rule keyed_same_instances)
    with k have k1: "keyed s1" by simp
    let ?s2 = "close_branch d a u w s1"
    have k2: "keyed ?s2"
      using k1 by (simp add: close_branch_def keyed_handleLoggedOut keyed_handleReconnect
          keyed_updateAccountStatus)
    have id: "accountId (i\<lparr>status := CONNECTED, reconnectAttempts := 0, lastActivity := now w\<rparr>) = a"
      using keyed_get [OF k Some] by simp
    let ?s3 = "set_instance a (i\<lparr>status := CONNECTED, reconnectAttempts := 0, lastActivity := now w\<rparr>) ?s2"
    have k3: "keyed ?s3" using k2 id by (rule keyed_set)
    have "keyed (fst (open_branch d a i u w ?s2))"
      using k2 k3 by (simp add: open_branch_def Let_def)
    with Some Inr show ?thesis by (simp add: handleConnectionUpdate_def)
  qed
qed

lemma keyed_sendMessage: "keyed s \<Longrightarrow> keyed (fst (sendMessage d a to c options w s))"
proof (cases "connected s a")
  case False
  then show "keyed s \<Longrightarrow> ?thesis" by (simp add: sendMessage_not_connected)
next
  case True
  assume k: "keyed s"
  from True obtain i where i: "get_instance s a = Some i"
    by (auto simp: connected_def split: option.splits)
  let ?s1 = "fst (checkRateLimit (checkedAt w) to s)"
  have k1: "keyed ?s1" using k by simp
  have id: "accountId (i\<lparr>lastActivity := activeAt w\<rparr>) = a"
    using keyed_get [OF k i] by simp
  have "keyed (recordMessage t to (?s1\<lparr>dispatched := x\<rparr>))" for t x
    using k by simp
  then have "keyed (set_instance a (i\<lparr>lastActivity := activeAt w\<rparr>)
      (recordMessage t to (?s1\<lparr>dispatched := x\<rparr>)))" for t x
    using id by (intro keyed_set)
  with k1 i show ?thesis
    by (simp add: sendMessage_connected [OF True] Let_def split: sum.splits)
qed

lemma keyed_shutdown: "keyed (shutdown w s)"
  by (simp add: shutdown_def Let_def keyed_def get_instance_def)

lemma keyed_step: "keyed s \<Longrightarrow> keyed (step d op s)"
proof (cases op)
  case (MessagesEvent k ty ms)
  assume "keyed s"
  then have "keyed (handleIncomingMessages d a ty ms s)" for a
    by (simp add: handleIncomingMessages_def)
  with \<open>keyed s\<close> MessagesEvent show ?thesis by simp
next
  case (ReconnectWakes k w)
  assume "keyed s"
  with ReconnectWakes show ?thesis
    by (simp add: keyed_handleReconnect_resume)
qed (simp_all add: keyed_initializeAccount keyed_disconnectAccount keyed_sendMessage
    keyed_shutdown keyed_handleConnectionUpdate)

lemma keyed_run: "keyed s \<Longrightarrow> keyed (run d ops s)"
  unfolding run_def by (induction ops arbitrary: s) (simp_all add: keyed_step)

lemma keyed_at_most_one:
  assumes "keyed s"
  shows "length (filter (\<lambda>e. fst e = a) (instances s)) \<le> 1"
    and "length (filter (\<lambda>e. accountId (snd e) = a) (instances s)) \<le> 1"
proof -
  have one: "distinct (map fst al) \<Longrightarrow> length (filter (\<lambda>e. fst e = a) al) \<le> 1"
    for al :: "(string \<times> WhatsAppInstance) list"
  proof (induction al)
    case Nil
    then show ?case by simp
  next
    case (Cons e al)
    from Cons.prems have notin: "fst e \<notin> fst ` set al" by simp
    have "filter (\<lambda>x. fst x = a) al = []" if "fst e = a"
      unfolding filter_empty_conv
    proof
      fix x assume "x \<in> set al"
      then have "fst x \<in> fst ` set al" by (rule imageI)
      with notin that show "\<not> fst x = a" by metis
    qed
    with Cons show ?case by (cases "fst e = a") simp_all
  qed
  from assms have "distinct (map fst (instances s))"
    by (simp add: keyed_def)
  then show "length (filter (\<lambda>e. fst e = a) (instances s)) \<le> 1"
    by (rule one)
  have "accountId (snd e) = fst e" if "e \<in> set (instances s)" for e
  proof -
    from that assms have "map_of (instances s) (fst e) = Some (snd e)"
      by (simp add: keyed_def)
    with assms show ?thesis by (simp add: keyed_def get_instance_def)
  qed
  then have "filter (\<lambda>e. accountId (snd e) = a) (instances s) = filter (\<lambda>e. fst e = a) (instances s)"
    by (intro filter_cong) auto
  with \<open>length (filter (\<lambda>e. fst e = a) (instances s)) \<le> 1\<close>
  show "length (filter (\<lambda>e. accountId (snd e) = a) (instances s)) \<le> 1" by simp
qed


subsection \<open>What the operations leave of an account that has given up\<close>

lemma owner_kept:
  "map sock_account (xs[k := (xs ! k)\<lparr>listening := l, logoutCalled := c\<rparr>]) = map sock_account xs"
proof (cases "k < length xs")
  case True
  then have "(map sock_account xs)[k := sock_account (xs ! k)] = map sock_account xs"
    by (simp add: list_update_same_conv)
  then show ?thesis by (simp add: map_update)
next
  case False
  then have "length xs \<le> k" by simp
  then show ?thesis by (simp only: list_update_beyond)
qed

lemma owned_kept:
  "length (filter (\<lambda>x. sock_account x = a) (xs[k := (xs ! k)\<lparr>listening := l, logoutCalled := c\<rparr>])) =
   length (filter (\<lambda>x. sock_account x = a) xs)"
proof -
  have conv: "length (filter (\<lambda>x. sock_account x = a) ys) =
      length (filter (\<lambda>b. b = a) (map sock_account ys))" for ys
    by (simp add: filter_map comp_def)
  show ?thesis unfolding conv owner_kept ..
qed

lemma attempts_simps [simp]:
  "attempts (set_instance b i s) a = (if a = b then Some (reconnectAttempts i) else attempts s a)"
  "attempts (delete_instance b s) a = (if a = b then None else attempts s a)"
  "attempts (emit e s) a = attempts s a"
  "attempts (updateAccountStatus b st ok s) a = attempts s a"
  "attempts (s\<lparr>messageQueue := mq\<rparr>) a = attempts s a"
  "attempts (s\<lparr>isShuttingDown := sd\<rparr>) a = attempts s a"
  "attempts (s\<lparr>sockets := so\<rparr>) a = attempts s a"
  "attempts (s\<lparr>sleeping := sl\<rparr>) a = attempts s a"
  "attempts (s\<lparr>sessionDirs := se\<rparr>) a = attempts s a"
  "attempts (s\<lparr>accountStatus := ast\<rparr>) a = attempts s a"
  "attempts (s\<lparr>emitted := em\<rparr>) a = attempts s a"
  "attempts (s\<lparr>dispatched := di\<rparr>) a = attempts s a"
  "attempts (fst (checkRateLimit t r s)) a = attempts s a"
  "attempts (recordMessage t r s) a = attempts s a"
  by (auto simp: attempts_def option.map_comp comp_def split: option.splits)

lemma opened_simps [simp]:
  "opened a (set_instance b i s) = opened a s"
  "opened a (delete_instance b s) = opened a s"
  "opened a (emit e s) = opened a s"
  "opened a (updateAccountStatus b st ok s) = opened a s"
  "opened a (s\<lparr>messageQueue := mq\<rparr>) = opened a s"
  "opened a (s\<lparr>isShuttingDown := sd\<rparr>) = opened a s"
  "opened a (s\<lparr>sleeping := sl\<rparr>) = opened a s"
  "opened a (s\<lparr>sessionDirs := se\<rparr>) = opened a s"
  "opened a (s\<lparr>accountStatus := ast\<rparr>) = opened a s"
  "opened a (s\<lparr>emitted := em\<rparr>) = opened a s"
  "opened a (s\<lparr>dispatched := di\<rparr>) = opened a s"
  "opened a (s\<lparr>instances := ins\<rparr>) = opened a s"
  "opened a (fst (checkRateLimit t r s)) = opened a s"
  "opened a (recordMessage t r s) = opened a s"
  by (simp_all add: opened_def)

lemma connectAccount_frame:
  "sleeping (fst (connectAccount d b w s)) = sleeping s"
  "isShuttingDown (fst (connectAccount d b w s)) = isShuttingDown s"
  "attempts (fst (connectAccount d b w s)) a = attempts s a"
  "b \<noteq> a \<Longrightarrow> opened a (fst (connectAccount d b w s)) = opened a s"
  "b \<noteq> a \<Longrightarrow> get_instance (fst (connectAccount d b w s)) a = get_instance s a"
  by (auto simp: connectAccount_def Let_def opened_def attempts_def split: option.splits)

lemma disconnectAccount_frame:
  "sleeping (disconnectAccount b w s) = sleeping s"
  "isShuttingDown (disconnectAccount b w s) = isShuttingDown s"
  "get_instance (disconnectAccount b w s) a = (if a = b then None else get_instance s a)"
  "attempts (disconnectAccount b w s) a = (if a = b then None else attempts s a)"
  "opened a (disconnectAccount b w s) = opened a s"
  "emitted (disconnectAccount b w s) =
     (if get_instance s b = None then emitted s else emitted s @ [Disconnected b manual])"
  by (auto simp: disconnectAccount_def Let_def opened_def attempts_def owned_kept split: option.splits)

lemma initializeAccount_frame:
  "sleeping (fst (initializeAccount d b w0 w s)) = sleeping s"
  "b \<noteq> a \<Longrightarrow> attempts (fst (initializeAccount d b w0 w s)) a = attempts s a"
  "b \<noteq> a \<Longrightarrow> opened a (fst (initializeAccount d b w0 w s)) = opened a s"
proof -
  let ?s1 = "if get_instance s b \<noteq> None then disconnectAccount b w0 s else s"
  let ?s2 = "set_instance b \<lparr>socket = None, accountId = b, status = CONNECTING,
      reconnectAttempts = 0, lastActivity = now w\<rparr> ?s1"
  obtain s3 r where c: "connectAccount d b w ?s2 = (s3, r)"
    by (cases "connectAccount d b w ?s2")
  then have s3: "s3 = fst (connectAccount d b w ?s2)" by simp
  have init: "fst (initializeAccount d b w0 w s) =
      (case r of Inr u \<Rightarrow> s3 | Inl e \<Rightarrow> updateAccountStatus b DISCONNECTED (dbOk w) s3)"
    using c by (simp add: initializeAccount_def Let_def split: sum.splits)
  show "sleeping (fst (initializeAccount d b w0 w s)) = sleeping s"
    unfolding init s3 by (simp add: connectAccount_frame disconnectAccount_frame split: sum.splits)
  show "attempts (fst (initializeAccount d b w0 w s)) a = attempts s a" if "b \<noteq> a"
    unfolding init s3 using that
    by (simp add: connectAccount_frame disconnectAccount_frame split: sum.splits)
  show "opened a (fst (initializeAccount d b w0 w s)) = opened a s" if "b \<noteq> a"
    unfolding init s3 using that
    by (simp add: connectAccount_frame disconnectAccount_frame split: sum.splits)
qed

lemma handleLoggedOut_frame:
  "attempts (handleLoggedOut d b w s) a = (if a = b then None else attempts s a)"
  "opened a (handleLoggedOut d b w s) = opened a s"
  by (simp_all add: handleLoggedOut_def Let_def)

lemma handleReconnect_frame:
  "opened a (handleReconnect b w s) = opened a s"
  "b \<noteq> a \<Longrightarrow> attempts (handleReconnect b w s) a = attempts s a"
  "b \<noteq> a \<Longrightarrow> a \<notin> fst ` set (sleeping s) \<Longrightarrow> a \<notin> fst ` set (sleeping (handleReconnect b w s))"
  by (auto simp: handleReconnect_def Let_def split: option.splits)

lemma handleReconnect_settled:
  "settled a s \<Longrightarrow> settled a (handleReconnect a w s)"
  by (auto simp: handleReconnect_def Let_def settled_def attempts_def split: option.splits)

lemma settled_other_fields [simp]:
  "settled a (emit e s) = settled a s"
  "settled a (updateAccountStatus b st ok s) = settled a s"
  "settled a (s\<lparr>messageQueue := mq\<rparr>) = settled a s"
  "settled a (s\<lparr>isShuttingDown := sd\<rparr>) = settled a s"
  "settled a (s\<lparr>sockets := so\<rparr>) = settled a s"
  "settled a (s\<lparr>sessionDirs := se\<rparr>) = settled a s"
  "settled a (s\<lparr>accountStatus := ast\<rparr>) = settled a s"
  "settled a (s\<lparr>emitted := em\<rparr>) = settled a s"
  "settled a (s\<lparr>dispatched := di\<rparr>) = settled a s"
  "settled a (fst (checkRateLimit t r s)) = settled a s"
  "settled a (recordMessage t r s) = settled a s"
  by (simp_all add: settled_def)

lemma settled_delete: "settled a s \<Longrightarrow> settled a (delete_instance b s)"
  by (simp add: settled_def)

lemma settled_set_other: "b \<noteq> a \<Longrightarrow> settled a (set_instance b i s) = settled a s"
  by (simp add: settled_def)

lemma settled_set_same:
  "settled a s \<Longrightarrow> get_instance s a = Some i \<Longrightarrow> reconnectAttempts j = reconnectAttempts i \<Longrightarrow>
   settled a (set_instance a j s)"
  by (simp add: settled_def attempts_def)

lemma settled_frame:
  "sleeping s' = sleeping s \<Longrightarrow> attempts s' a = attempts s a \<or> attempts s' a = None \<Longrightarrow>
   settled a s \<Longrightarrow> settled a s'"
  by (auto simp: settled_def)

lemma qr_branch_frame:
  assumes "qr_branch b u w s = Inr s1"
  shows "instances s1 = instances s" "sleeping s1 = sleeping s" "sockets s1 = sockets s"
    "isShuttingDown s1 = isShuttingDown s"
  using assms by (auto simp: qr_branch_def split: option.splits if_splits)

lemma qr_branch_settled:
  assumes "qr_branch b u w s = Inr s1"
  shows "settled a s1 = settled a s" "opened a s1 = opened a s" "get_instance s1 a = get_instance s a"
  using qr_branch_frame [OF assms]
  by (simp_all add: settled_def attempts_def opened_def get_instance_def)

lemma close_branch_other:
  assumes "b \<noteq> a" "settled a s"
  shows "settled a (close_branch d b u w s)" "opened a (close_branch d b u w s) = opened a s"
proof -
  have "settled a (handleLoggedOut d b w s)"
    using assms by (simp add: settled_def handleLoggedOut_frame handleLoggedOut_fields)
  moreover have "settled a (handleReconnect b w s)"
    using assms by (simp add: settled_def handleReconnect_frame)
  ultimately show "settled a (close_branch d b u w s)"
    using assms(2) by (simp add: close_branch_def)
  show "opened a (close_branch d b u w s) = opened a s"
    by (simp add: close_branch_def handleLoggedOut_frame handleReconnect_frame)
qed

lemma close_branch_same:
  assumes "settled a s"
  shows "settled a (close_branch d a u w s)" "opened a (close_branch d a u w s) = opened a s"
proof -
  have "settled a (handleLoggedOut d a w s)"
    using assms by (simp add: settled_def handleLoggedOut_frame handleLoggedOut_fields)
  then show "settled a (close_branch d a u w s)"
    using assms by (simp add: close_branch_def handleReconnect_settled)
  show "opened a (close_branch d a u w s) = opened a s"
    by (simp add: close_branch_def handleLoggedOut_frame handleReconnect_frame)
qed

lemma open_branch_other:
  assumes "b \<noteq> a"
  shows "settled a (fst (open_branch d b i u w s)) = settled a s"
    "opened a (fst (open_branch d b i u w s)) = opened a s"
  using assms by (simp_all add: open_branch_def Let_def settled_set_other)

lemma open_branch_not_open:
  assumes "connection u \<noteq> Some conn_open"
  shows "fst (open_branch d b i u w s) = s"
  using assms by (simp add: open_branch_def)

lemma handleConnectionUpdate_settled:
  assumes "settled a s" and "b = a \<longrightarrow> connection u \<noteq> Some conn_open"
  shows "settled a (fst (handleConnectionUpdate d b u w s))"
    and "opened a (fst (handleConnectionUpdate d b u w s)) = opened a s"
proof -
  have "settled a (fst (handleConnectionUpdate d b u w s)) \<and>
      opened a (fst (handleConnectionUpdate d b u w s)) = opened a s"
  proof (cases "get_instance s b")
    case None
    with assms(1) show ?thesis by (simp add: handleConnectionUpdate_def)
  next
    case (Some i)
    show ?thesis
    proof (cases "qr_branch b u w s")
      case (Inl e)
      with Some assms(1) show ?thesis by (simp add: handleConnectionUpdate_def)
    next
      case (Inr s1)
      from qr_branch_settled [OF Inr, of a] assms(1)
      have s1: "settled a s1" "opened a s1 = opened a s" by simp_all
      have eq: "fst (handleConnectionUpdate d b u w s) =
          fst (open_branch d b i u w (close_branch d b u w s1))"
        using Some Inr by (simp add: handleConnectionUpdate_def)
      show ?thesis
      proof (cases "b = a")
        case True
        with assms(2) have "connection u \<noteq> Some conn_open" by simp
        then show ?thesis
          unfolding eq using s1 True
          by (simp add: open_branch_not_open close_branch_same)
      next
        case False
        then show ?thesis
          unfolding eq using s1
          by (simp add: open_branch_other close_branch_other)
      qed
    qed
  qed
  then show "settled a (fst (handleConnectionUpdate d b u w s))"
    and "opened a (fst (handleConnectionUpdate d b u w s)) = opened a s" by simp_all
qed

lemma sendMessage_settled:
  "settled a (fst (sendMessage d b to c options w s)) = settled a s"
  "opened a (fst (sendMessage d b to c options w s)) = opened a s"
proof -
  have "settled a (fst (sendMessage d b to c options w s)) = settled a s \<and>
      opened a (fst (sendMessage d b to c options w s)) = opened a s"
  proof (cases "connected s b")
    case False
    then show ?thesis by (simp add: sendMessage_not_connected)
  next
    case True
    then obtain i where i: "get_instance s b = Some i"
      by (auto simp: connected_def split: option.splits)
    have "settled a (set_instance b (i\<lparr>lastActivity := t\<rparr>) s') = settled a s'"
      if "get_instance s' b = Some i" for t s'
      using that by (simp add: settled_def attempts_def)
    then show ?thesis
      using i by (simp add: sendMessage_connected [OF True] Let_def split: sum.splits)
  qed
  then show "settled a (fst (sendMessage d b to c options w s)) = settled a s"
    and "opened a (fst (sendMessage d b to c options w s)) = opened a s" by simp_all
qed

lemma disconnectAccount_settled:
  "settled a s \<Longrightarrow> settled a (disconnectAccount b w s)"
  by (simp add: settled_def disconnectAccount_frame)

lemma fold_disconnect_frame:
  "sleeping (fold (\<lambda>b. disconnectAccount b w) bs s) = sleeping s"
  "opened a (fold (\<lambda>b. disconnectAccount b w) bs s) = opened a s"
  by (induction bs arbitrary: s) (simp_all add: disconnectAccount_frame)

lemma shutdown_settled:
  "settled a s \<Longrightarrow> settled a (shutdown w s)"
  "opened a (shutdown w s) = opened a s"
  by (simp_all add: shutdown_def Let_def settled_def attempts_def get_instance_def
      fold_disconnect_frame)

lemma handleIncomingMessages_settled:
  "settled a (handleIncomingMessages d b ty ms s) = settled a s"
  "opened a (handleIncomingMessages d b ty ms s) = opened a s"
  by (simp_all add: handleIncomingMessages_def)

lemma resume_settled:
  assumes "b \<noteq> a"
  shows "settled a (handleReconnect_resume d b w s) = settled a s"
    "opened a (handleReconnect_resume d b w s) = opened a s"
  using assms
  by (simp_all add: handleReconnect_resume_def settled_def connectAccount_frame)

lemma wake_settled:
  assumes "settled a s"
  shows "settled a (step d (ReconnectWakes k w) s)"
    and "opened a (step d (ReconnectWakes k w) s) = opened a s"
proof -
  have "settled a (step d (ReconnectWakes k w) s) \<and>
      opened a (step d (ReconnectWakes k w) s) = opened a s"
  proof (cases "k < length (sleeping s)")
    case False
    with assms show ?thesis by simp
  next
    case True
    then have "sleeping s ! k \<in> set (sleeping s)" by simp
    with assms have other: "fst (sleeping s ! k) \<noteq> a"
      by (auto simp: settled_def)
    let ?s1 = "s\<lparr>sleeping := take k (sleeping s) @ drop (Suc k) (sleeping s)\<rparr>"
    have "set (take k (sleeping s) @ drop (Suc k) (sleeping s)) \<subseteq> set (sleeping s)"
      using set_take_subset [of k "sleeping s"] set_drop_subset [of "Suc k" "sleeping s"] by auto
    with assms have "settled a ?s1"
      by (auto simp: settled_def)
    with True other show ?thesis by (simp add: resume_settled)
  qed
  then show "settled a (step d (ReconnectWakes k w) s)"
    and "opened a (step d (ReconnectWakes k w) s) = opened a s" by simp_all
qed

lemma step_settled:
  assumes "settled a s" and "\<not> resets a s op"
  shows "settled a (step d op s) \<and> opened a (step d op s) = opened a s"
proof (cases op)
  case (InitializeAccount b w0 w)
  with assms(2) have "b \<noteq> a" by simp
  then have "settled a (fst (initializeAccount d b w0 w s))"
    using assms(1) by (simp add: settled_def initializeAccount_frame)
  with \<open>b \<noteq> a\<close> InitializeAccount show ?thesis by (simp add: initializeAccount_frame)
next
  case (DisconnectAccount b w)
  with assms(1) show ?thesis by (simp add: disconnectAccount_settled disconnectAccount_frame)
next
  case (SendMessage b to c options w)
  with assms(1) show ?thesis by (simp add: sendMessage_settled)
next
  case (Shutdown w)
  with assms(1) show ?thesis by (simp add: shutdown_settled)
next
  case (ConnectionEvent k u w)
  show ?thesis
  proof (cases "k < length (sockets s) \<and> listening (sockets s ! k)")
    case False
    with ConnectionEvent assms(1) show ?thesis by auto
  next
    case True
    with assms(2) ConnectionEvent
    have "sock_account (sockets s ! k) = a \<longrightarrow> connection u \<noteq> Some conn_open" by simp
    from handleConnectionUpdate_settled [OF assms(1) this] True ConnectionEvent
    show ?thesis by simp
  qed
next
  case (MessagesEvent k ty ms)
  with assms(1) show ?thesis by (simp add: handleIncomingMessages_settled)
next
  case (ReconnectWakes k w)
  with wake_settled [OF assms(1)] show ?thesis by simp
qed

lemma run_settled:
  "settled a s \<Longrightarrow> undisturbed d a ops s \<Longrightarrow>
   settled a (run d ops s) \<and> opened a (run d ops s) = opened a s"
proof (induction ops arbitrary: s)
  case Nil
  then show ?case by (simp add: run_def)
next
  case (Cons op ops)
  from Cons.prems have "\<not> resets a s op" "undisturbed d a ops (step d op s)" by simp_all
  from step_settled [OF Cons.prems(1) this(1), of d] Cons.IH [OF _ this(2)]
  show ?case by (simp add: run_def)
qed

lemma disconnectAccount_sockets:
  assumes "get_instance s a = Some i"
  shows "sockets (disconnectAccount a w s) =
     (case socket i of
        None \<Rightarrow> sockets s
      | Some k \<Rightarrow> (sockets s)[k := (sockets s ! k)\<lparr>listening := False, logoutCalled := True\<rparr>])"
  using assms by (simp add: disconnectAccount_def Let_def split: option.splits)

lemma connectAccount_old_sockets:
  "k < length (sockets s) \<Longrightarrow> sockets (fst (connectAccount d a w s)) ! k = sockets s ! k"
  by (auto simp: connectAccount_def Let_def nth_append split: option.splits)

lemma connectAccount_success:
  assumes "get_instance s a = Some i" "authOk w" "socketOk w"
  shows "connectAccount d a w s =
     (set_instance a (i\<lparr>socket := Some (length (sockets s))\<rparr>)
        (s\<lparr>sessionDirs := insert (getSessionPath d a) (sessionDirs s),
           sockets := sockets s @ [\<lparr>sock_account = a, listening = True, logoutCalled = False\<rparr>]\<rparr>),
      Inr ())"
  using assms by (simp add: connectAccount_def Let_def)

lemma initializeAccount_sockets:
  "sockets (fst (initializeAccount d a w0 w s)) =
     sockets (fst (connectAccount d a w
       (set_instance a \<lparr>socket = None, accountId = a, status = CONNECTING,
                        reconnectAttempts = 0, lastActivity = now w\<rparr>
          (if get_instance s a \<noteq> None then disconnectAccount a w0 s else s))))"
  by (simp add: initializeAccount_def Let_def split: prod.splits sum.splits)

text \<open>
  What holds of the instance map and of one \<^verbatim>\<open>initializeAccount\<close>. From the service as it
  is constructed, after any operations the map holds at most one entry under an account
  id, and at most one instance whose \<^verbatim>\<open>accountId\<close> is that id. \<^verbatim>\<open>initializeAccount\<close> on an
  account that has an instance is \<^verbatim>\<open>disconnectAccount\<close> followed by the initialisation of
  an account without one: the old instance is deleted and \<^verbatim>\<open>disconnected\<close> is emitted with
  the reason \<^verbatim>\<open>manual\<close>, the socket that instance held has lost its listeners and was
  logged out, and when the connection can be set up the account has a fresh instance
  in \<^verbatim>\<open>CONNECTING\<close> with the counter at 0 and a new socket.
\<close>

lemma one_instance_per_account:
  "length (filter (\<lambda>e. fst e = a) (instances (run d ops fresh_service))) \<le> 1 \<and>
   length (filter (\<lambda>e. accountId (snd e) = a) (instances (run d ops fresh_service))) \<le> 1 \<and>
   (get_instance s a = Some old \<longrightarrow>
      initializeAccount d a w0 w s = initializeAccount d a w0 w (disconnectAccount a w0 s) \<and>
      get_instance (disconnectAccount a w0 s) a = None \<and>
      emitted (disconnectAccount a w0 s) = emitted s @ [Disconnected a manual] \<and>
      (\<forall>k. socket old = Some k \<and> k < length (sockets s) \<longrightarrow>
         \<not> listening (sockets (fst (initializeAccount d a w0 w s)) ! k) \<and>
         logoutCalled (sockets (fst (initializeAccount d a w0 w s)) ! k)) \<and>
      (authOk w \<and> socketOk w \<longrightarrow>
         snd (initializeAccount d a w0 w s) = Inr () \<and>
         get_instance (fst (initializeAccount d a w0 w s)) a =
           Some \<lparr>socket = Some (length (sockets s)), accountId = a, status = CONNECTING,
                  reconnectAttempts = 0, lastActivity = now w\<rparr> \<and>
         sockets (fst (initializeAccount d a w0 w s)) =
           sockets (disconnectAccount a w0 s) @
           [\<lparr>sock_account = a, listening = True, logoutCalled = False\<rparr>]))"
proof (intro conjI impI allI)
  have k: "keyed (run d ops fresh_service)"
    by (intro keyed_run keyed_fresh)
  from keyed_at_most_one [OF k]
  show "length (filter (\<lambda>e. fst e = a) (instances (run d ops fresh_service))) \<le> 1"
    and "length (filter (\<lambda>e. accountId (snd e) = a) (instances (run d ops fresh_service))) \<le> 1"
    by simp_all
next
  assume old: "get_instance s a = Some old"
  let ?s1 = "disconnectAccount a w0 s"
  show gone: "get_instance ?s1 a = None"
    by (simp add: disconnectAccount_frame)
  then show "initializeAccount d a w0 w s = initializeAccount d a w0 w ?s1"
    using old by (simp add: initializeAccount_def)
  show "emitted ?s1 = emitted s @ [Disconnected a manual]"
    using old by (simp add: disconnectAccount_frame)
  have len: "length (sockets ?s1) = length (sockets s)"
    using old by (simp add: disconnectAccount_sockets split: option.splits)
  let ?fresh = "\<lparr>socket = None, accountId = a, status = CONNECTING,
      reconnectAttempts = 0, lastActivity = now w\<rparr>"
  have socks: "sockets (fst (initializeAccount d a w0 w s)) =
      sockets (fst (connectAccount d a w (set_instance a ?fresh ?s1)))"
    using old by (simp add: initializeAccount_sockets)
  {
    fix k assume k: "socket old = Some k \<and> k < length (sockets s)"
    then have "sockets (fst (initializeAccount d a w0 w s)) ! k = sockets ?s1 ! k"
      unfolding socks using len by (simp add: connectAccount_old_sockets)
    also have "\<dots> = (sockets s ! k)\<lparr>listening := False, logoutCalled := True\<rparr>"
      using old k by (simp add: disconnectAccount_sockets)
    finally have at: "sockets (fst (initializeAccount d a w0 w s)) ! k =
        (sockets s ! k)\<lparr>listening := False, logoutCalled := True\<rparr>" .
    show "\<not> listening (sockets (fst (initializeAccount d a w0 w s)) ! k)"
      and "logoutCalled (sockets (fst (initializeAccount d a w0 w s)) ! k)"
      by (simp_all add: at)
  }
  assume ok: "authOk w \<and> socketOk w"
  have c: "connectAccount d a w (set_instance a ?fresh ?s1) =
      (set_instance a (?fresh\<lparr>socket := Some (length (sockets s))\<rparr>)
         ((set_instance a ?fresh ?s1)
            \<lparr>sessionDirs := insert (getSessionPath d a) (sessionDirs ?s1),
             sockets := sockets ?s1 @ [\<lparr>sock_account = a, listening = True, logoutCalled = False\<rparr>]\<rparr>),
       Inr ())"
    using ok len connectAccount_success [of "set_instance a ?fresh ?s1" a ?fresh w d] by simp
  have init: "initializeAccount d a w0 w s =
      (set_instance a (?fresh\<lparr>socket := Some (length (sockets s))\<rparr>)
         ((set_instance a ?fresh ?s1)
            \<lparr>sessionDirs := insert (getSessionPath d a) (sessionDirs ?s1),
             sockets := sockets ?s1 @ [\<lparr>sock_account = a, listening = True, logoutCalled = False\<rparr>]\<rparr>),
       Inr ())"
    using old c by (simp add: initializeAccount_def Let_def)
  show "snd (initializeAccount d a w0 w s) = Inr ()"
    and "get_instance (fst (initializeAccount d a w0 w s)) a =
           Some \<lparr>socket = Some (length (sockets s)), accountId = a, status = CONNECTING,
                  reconnectAttempts = 0, lastActivity = now w\<rparr>"
    and "sockets (fst (initializeAccount d a w0 w s)) =
           sockets ?s1 @ [\<lparr>sock_account = a, listening = True, logoutCalled = False\<rparr>]"
    by (simp_all add: init)
qed

lemmas eval_defs =
  run_def initializeAccount_def connectAccount_def disconnectAccount_def
  handleConnectionUpdate_def qr_branch_def close_branch_def open_branch_def
  handleLoggedOut_def handleReconnect_def handleReconnect_resume_def updateAccountStatus_def
  set_instance_def delete_instance_def get_instance_def emit_def getSessionPath_def
  plain_deps_def calm_def open_update_def close_update_def loggedOut_def
  maxReconnectAttempts_def reconnectDelay_def Let_def

lemma reinitialize_online_account:
  "get_instance online ''acc1'' =
     Some \<lparr>socket = Some 0, accountId = ''acc1'', status = CONNECTED,
            reconnectAttempts = 0, lastActivity = 1000\<rparr> \<and>
   authOk calm \<and> socketOk calm \<and> (0::nat) < length (sockets online) \<and>
   get_instance (fst (initializeAccount plain_deps ''acc1'' calm calm online)) ''acc1'' =
     Some \<lparr>socket = Some 1, accountId = ''acc1'', status = CONNECTING,
            reconnectAttempts = 0, lastActivity = 1000\<rparr> \<and>
   \<not> listening (sockets (fst (initializeAccount plain_deps ''acc1'' calm calm online)) ! 0) \<and>
   logoutCalled (sockets (fst (initializeAccount plain_deps ''acc1'' calm calm online)) ! 0) \<and>
   length (filter (\<lambda>e. fst e = ''acc1'')
     (instances (run plain_deps
        [InitializeAccount ''acc1'' calm calm, InitializeAccount ''acc1'' calm calm]
        fresh_service))) \<le> 1"
proof -
  let ?old = "\<lparr>socket = Some 0, accountId = ''acc1'', status = CONNECTED,
      reconnectAttempts = 0, lastActivity = 1000\<rparr>"
  note t = one_instance_per_account [of "''acc1''" plain_deps
      "[InitializeAccount ''acc1'' calm calm, InitializeAccount ''acc1'' calm calm]" online
      ?old calm calm]
  have ok: "authOk calm" "socketOk calm" and at: "now calm = 1000"
    by (simp_all add: calm_def)
  have len: "(0::nat) < length (sockets online)" "length (sockets online) = 1"
    by (simp_all add: online_fields)
  from t have one: "length (filter (\<lambda>e. fst e = ''acc1'')
     (instances (run plain_deps
        [InitializeAccount ''acc1'' calm calm, InitializeAccount ''acc1'' calm calm]
        fresh_service))) \<le> 1"
    by (rule conjunct1)
  from t online_instance have old: "\<forall>k. socket ?old = Some k \<and> k < length (sockets online) \<longrightarrow>
         \<not> listening (sockets (fst (initializeAccount plain_deps ''acc1'' calm calm online)) ! k) \<and>
         logoutCalled (sockets (fst (initializeAccount plain_deps ''acc1'' calm calm online)) ! k)"
    by blast
  from t online_instance ok have new: "get_instance (fst (initializeAccount plain_deps ''acc1'' calm calm online)) ''acc1'' =
      Some \<lparr>socket = Some (length (sockets online)), accountId = ''acc1'', status = CONNECTING,
             reconnectAttempts = 0, lastActivity = now calm\<rparr>"
    by blast
  from old len(1) have "\<not> listening (sockets (fst (initializeAccount plain_deps ''acc1'' calm calm online)) ! 0)"
    and "logoutCalled (sockets (fst (initializeAccount plain_deps ''acc1'' calm calm online)) ! 0)"
    by simp_all
  with one new ok len online_instance show ?thesis
    by (simp add: at)
qed

text \<open>
  The same run from the service with \<^verbatim>\<open>acc1\<close> online, socket by socket: the socket of the
  first initialisation is detached, the sockets of the second initialisation and of the
  reconnect both keep their listeners, and the instance holds the last one.
\<close>

lemma reconnect_after_reinitialize:
  "map listening (sockets (run plain_deps
      [ConnectionEvent 0 (close_update (Some 428)) calm,
       InitializeAccount ''acc1'' calm calm,
       ReconnectWakes 0 calm] online)) = [False, True, True] \<and>
   map sock_account (sockets (run plain_deps
      [ConnectionEvent 0 (close_update (Some 428)) calm,
       InitializeAccount ''acc1'' calm calm,
       ReconnectWakes 0 calm] online)) = [''acc1'', ''acc1'', ''acc1''] \<and>
   map (\<lambda>e. socket (snd e)) (instances (run plain_deps
      [ConnectionEvent 0 (close_update (Some 428)) calm,
       InitializeAccount ''acc1'' calm calm,
       ReconnectWakes 0 calm] online)) = [Some 2]"
  by (simp add: online_eq eval_defs)

text \<open>
  C8. The code does not keep the invariant of at most one live connection for an
  account. \<^verbatim>\<open>initializeAccount\<close> tears the old connection down before it opens a new one,
  but \<^verbatim>\<open>handleReconnect\<close> does not: after its \<^verbatim>\<open>sleep\<close> it only asks whether the account
  has an instance, and then \<^verbatim>\<open>connectAccount\<close> opens a socket and overwrites
  \<^verbatim>\<open>instance.socket\<close>. When \<^verbatim>\<open>acc1\<close> is initialised, its connection opens and closes with
  the code 428, the account is initialised again within the delay of 5000 ms, and the
  reconnect then wakes, the instance found is the new one. Before the reconnect wakes
  the account has one live connection, the socket 1 of the second initialisation;
  afterwards it has two, the sockets 1 and 2, neither of which has closed or was
  logged out, and both deliver their events to the handlers of \<^verbatim>\<open>acc1\<close>. The map still has
  one instance, which holds socket 2, so that \<^verbatim>\<open>disconnectAccount\<close> tears down socket 2
  only: with the instance gone, socket 1 is still live and a message that arrives on
  it is still emitted for \<^verbatim>\<open>acc1\<close>.
\<close>

theorem second_connection_after_reinitialize:
  "live_connections ''acc1'' (run plain_deps (take 4 reinitialize_while_asleep) fresh_service) = [1] \<and>
   live_connections ''acc1'' (run plain_deps reinitialize_while_asleep fresh_service) = [1, 2] \<and>
   map (\<lambda>e. (fst e, socket (snd e)))
     (instances (run plain_deps reinitialize_while_asleep fresh_service)) = [(''acc1'', Some 2)] \<and>
   live_connections ''acc1''
     (run plain_deps (reinitialize_while_asleep @ [DisconnectAccount ''acc1'' calm]) fresh_service) = [1] \<and>
   instances
     (run plain_deps (reinitialize_while_asleep @ [DisconnectAccount ''acc1'' calm]) fresh_service) = [] \<and>
   length (filter (\<lambda>e. case e of Message a m \<Rightarrow> a = ''acc1'' | _ \<Rightarrow> False)
     (emitted (run plain_deps
        (reinitialize_while_asleep @
         [DisconnectAccount ''acc1'' calm,
          MessagesEvent 1 ''notify'' [(poll_message, ''uuid-1'', 5)]]) fresh_service))) = 1"
  by (simp add: live_connections_def reinitialize_while_asleep_def fresh_service_def
      handleIncomingMessages_def parseMessage_def poll_message_def classify_def eval_defs)

subsection \<open>Reconnecting and giving up\<close>

lemma close_transient:
  assumes "get_instance s a = Some i" "\<not> isShuttingDown s" "code \<noteq> Some loggedOut"
  shows "handleConnectionUpdate d a (close_update code) w s = (handleReconnect a w s, Inr ())"
  using assms
  by (simp add: handleConnectionUpdate_def qr_branch_def close_branch_def open_branch_def
      close_update_def)

lemma handleReconnect_below:
  assumes "get_instance s a = Some i" "reconnectAttempts i < maxReconnectAttempts"
  shows "handleReconnect a w s =
     (set_instance a (i\<lparr>reconnectAttempts := Suc (reconnectAttempts i)\<rparr>) s)
       \<lparr>sleeping := sleeping s @ [(a, reconnectDelay * Suc (reconnectAttempts i))]\<rparr>"
  using assms by (simp add: handleReconnect_def Let_def)

lemma handleReconnect_at_cap:
  assumes "get_instance s a = Some i" "maxReconnectAttempts \<le> reconnectAttempts i"
  shows "handleReconnect a w s =
     emit (Disconnected a max_reconnect_attempts) (updateAccountStatus a DISCONNECTED (dbOk w) s)"
  using assms by (simp add: handleReconnect_def)

text \<open>
  C6, as the code has it. A close event without the logged-out code, for an account with
  an instance, while the service is not shutting down: below the maximum of 5 the
  counter grows by one and the reconnect goes to sleep for 5000 ms times the new
  counter, a delay that grows strictly with the attempt number; at the maximum nothing
  is scheduled and no socket is opened, the counter stays, \<^verbatim>\<open>disconnected\<close> is emitted with
  the reason \<^verbatim>\<open>max_reconnect_attempts\<close>, and the status of the instance and of the table is
  \<^verbatim>\<open>DISCONNECTED\<close> when the update of the table resolved and is left as it was when it
  threw. An account that is settled (no reconnect of it asleep, its counter at the
  maximum if it has an instance) stays settled and gets no new socket through any
  operations among which there is neither its initialisation nor an open event for it.
\<close>

theorem reconnect_backoff_and_cap:
  "reconnectDelay = 5000 \<and> maxReconnectAttempts = 5 \<and>
   (\<forall>n m. n < m \<longrightarrow> reconnectDelay * n < reconnectDelay * m) \<and>
   (get_instance s a = Some i \<and> \<not> isShuttingDown s \<and> code \<noteq> Some loggedOut \<and>
    reconnectAttempts i < maxReconnectAttempts \<longrightarrow>
      sleeping (fst (handleConnectionUpdate d a (close_update code) w s)) =
        sleeping s @ [(a, reconnectDelay * Suc (reconnectAttempts i))] \<and>
      attempts (fst (handleConnectionUpdate d a (close_update code) w s)) a =
        Some (Suc (reconnectAttempts i)) \<and>
      sockets (fst (handleConnectionUpdate d a (close_update code) w s)) = sockets s \<and>
      emitted (fst (handleConnectionUpdate d a (close_update code) w s)) = emitted s) \<and>
   (get_instance s a = Some i \<and> \<not> isShuttingDown s \<and> code \<noteq> Some loggedOut \<and>
    maxReconnectAttempts \<le> reconnectAttempts i \<longrightarrow>
      emitted (fst (handleConnectionUpdate d a (close_update code) w s)) =
        emitted s @ [Disconnected a max_reconnect_attempts] \<and>
      sleeping (fst (handleConnectionUpdate d a (close_update code) w s)) = sleeping s \<and>
      sockets (fst (handleConnectionUpdate d a (close_update code) w s)) = sockets s \<and>
      get_instance (fst (handleConnectionUpdate d a (close_update code) w s)) a =
        Some (if dbOk w then i\<lparr>status := DISCONNECTED\<rparr> else i) \<and>
      accountStatus (fst (handleConnectionUpdate d a (close_update code) w s)) =
        (if dbOk w then (accountStatus s)(a \<mapsto> DISCONNECTED) else accountStatus s) \<and>
      (a \<notin> fst ` set (sleeping s) \<longrightarrow>
         settled a (fst (handleConnectionUpdate d a (close_update code) w s)))) \<and>
   (settled a s \<and> undisturbed d a ops s \<longrightarrow>
      settled a (run d ops s) \<and> opened a (run d ops s) = opened a s)"
proof (intro conjI impI allI)
  show "reconnectDelay = 5000" by (simp add: reconnectDelay_def)
  show "maxReconnectAttempts = 5" by (simp add: maxReconnectAttempts_def)
  show "reconnectDelay * n < reconnectDelay * m" if "n < m" for n m
    using that by (simp add: reconnectDelay_def)
next
  assume a: "get_instance s a = Some i \<and> \<not> isShuttingDown s \<and> code \<noteq> Some loggedOut \<and>
    reconnectAttempts i < maxReconnectAttempts"
  then have eq: "fst (handleConnectionUpdate d a (close_update code) w s) =
      (set_instance a (i\<lparr>reconnectAttempts := Suc (reconnectAttempts i)\<rparr>) s)
        \<lparr>sleeping := sleeping s @ [(a, reconnectDelay * Suc (reconnectAttempts i))]\<rparr>"
    by (simp add: close_transient handleReconnect_below)
  show "sleeping (fst (handleConnectionUpdate d a (close_update code) w s)) =
        sleeping s @ [(a, reconnectDelay * Suc (reconnectAttempts i))]"
    and "attempts (fst (handleConnectionUpdate d a (close_update code) w s)) a =
        Some (Suc (reconnectAttempts i))"
    and "sockets (fst (handleConnectionUpdate d a (close_update code) w s)) = sockets s"
    and "emitted (fst (handleConnectionUpdate d a (close_update code) w s)) = emitted s"
    by (simp_all add: eq)
next
  assume a: "get_instance s a = Some i \<and> \<not> isShuttingDown s \<and> code \<noteq> Some loggedOut \<and>
    maxReconnectAttempts \<le> reconnectAttempts i"
  then have eq: "fst (handleConnectionUpdate d a (close_update code) w s) =
      emit (Disconnected a max_reconnect_attempts) (updateAccountStatus a DISCONNECTED (dbOk w) s)"
    by (simp add: close_transient handleReconnect_at_cap)
  show "emitted (fst (handleConnectionUpdate d a (close_update code) w s)) =
        emitted s @ [Disconnected a max_reconnect_attempts]"
    and "sleeping (fst (handleConnectionUpdate d a (close_update code) w s)) = sleeping s"
    and "sockets (fst (handleConnectionUpdate d a (close_update code) w s)) = sockets s"
    and "accountStatus (fst (handleConnectionUpdate d a (close_update code) w s)) =
        (if dbOk w then (accountStatus s)(a \<mapsto> DISCONNECTED) else accountStatus s)"
    by (simp_all add: eq)
  show "get_instance (fst (handleConnectionUpdate d a (close_update code) w s)) a =
        Some (if dbOk w then i\<lparr>status := DISCONNECTED\<rparr> else i)"
    using a by (simp add: eq)
  show "settled a (fst (handleConnectionUpdate d a (close_update code) w s))"
    if "a \<notin> fst ` set (sleeping s)"
    using that a by (simp add: eq settled_def attempts_def)
next
  assume "settled a s \<and> undisturbed d a ops s"
  then show "settled a (run d ops s)" and "opened a (run d ops s) = opened a s"
    using run_settled [of a s d ops] by simp_all
qed

lemma worn_eq:
  "worn =
     \<lparr>instances = [(''acc1'', \<lparr>socket = Some 5, accountId = ''acc1'', status = CONNECTED,
                              reconnectAttempts = 5, lastActivity = 1000\<rparr>)],
      messageQueue = Map.empty, isShuttingDown = False,
      sockets = [\<lparr>sock_account = ''acc1'', listening = True, logoutCalled = False\<rparr>,
                 \<lparr>sock_account = ''acc1'', listening = True, logoutCalled = False\<rparr>,
                 \<lparr>sock_account = ''acc1'', listening = True, logoutCalled = False\<rparr>,
                 \<lparr>sock_account = ''acc1'', listening = True, logoutCalled = False\<rparr>,
                 \<lparr>sock_account = ''acc1'', listening = True, logoutCalled = False\<rparr>,
                 \<lparr>sock_account = ''acc1'', listening = True, logoutCalled = False\<rparr>],
      sleeping = [], sessionDirs = {''sessions/session_acc1''},
      accountStatus = [''acc1'' \<mapsto> CONNECTED],
      emitted = [Connected ''acc1'' (Some ''923009999999:1'')], dispatched = []\<rparr>"
  by (simp add: worn_def five_failures_def transient_def online_eq eval_defs)

lemma worn_fields:
  "get_instance worn ''acc1'' =
     Some \<lparr>socket = Some 5, accountId = ''acc1'', status = CONNECTED,
            reconnectAttempts = 5, lastActivity = 1000\<rparr>"
  "isShuttingDown worn = False"
  "sleeping worn = []"
  "length (sockets worn) = 6"
  "emitted worn = [Connected ''acc1'' (Some ''923009999999:1'')]"
  "opened ''acc1'' worn = 6"
  by (simp_all add: worn_eq get_instance_def opened_def)

lemma given_up_undisturbed:
  "undisturbed plain_deps ''acc1''
     [ConnectionEvent 4 transient calm, ReconnectWakes 0 calm, ConnectionEvent 5 transient calm]
     (fst (handleConnectionUpdate plain_deps ''acc1'' transient calm worn))"
  by (simp add: transient_def worn_eq eval_defs)

theorem reconnect_backoff_and_cap_witness:
  "get_instance online ''acc1'' \<noteq> None \<and> \<not> isShuttingDown online \<and>
   sleeping (fst (handleConnectionUpdate plain_deps ''acc1'' transient calm online)) =
     [(''acc1'', 5000)] \<and>
   attempts worn ''acc1'' = Some 5 \<and> \<not> isShuttingDown worn \<and>
   emitted (fst (handleConnectionUpdate plain_deps ''acc1'' transient calm worn)) =
     [Connected ''acc1'' (Some ''923009999999:1''), Disconnected ''acc1'' max_reconnect_attempts] \<and>
   map_option status (get_instance (fst (handleConnectionUpdate plain_deps ''acc1'' transient calm worn)) ''acc1'') =
     Some DISCONNECTED \<and>
   settled ''acc1'' (fst (handleConnectionUpdate plain_deps ''acc1'' transient calm worn)) \<and>
   opened ''acc1'' (run plain_deps
     [ConnectionEvent 4 transient calm, ReconnectWakes 0 calm, ConnectionEvent 5 transient calm]
     (fst (handleConnectionUpdate plain_deps ''acc1'' transient calm worn))) = 6"
proof -
  have code: "transient = close_update (Some 428)" "Some 428 \<noteq> Some loggedOut"
    by (simp_all add: transient_def loggedOut_def)
  have low: "reconnectAttempts \<lparr>socket = Some 0, accountId = ''acc1'', status = CONNECTED,
      reconnectAttempts = 0, lastActivity = 1000\<rparr> < maxReconnectAttempts"
    by (simp add: maxReconnectAttempts_def)
  have high: "maxReconnectAttempts \<le> reconnectAttempts \<lparr>socket = Some 5, accountId = ''acc1'',
      status = CONNECTED, reconnectAttempts = 5, lastActivity = 1000\<rparr>"
    by (simp add: maxReconnectAttempts_def)
  have dbs: "dbOk calm" by (simp add: calm_def)
  have quiet: "\<not> isShuttingDown online" "\<not> isShuttingDown worn" "''acc1'' \<notin> fst ` set (sleeping worn)"
    by (simp_all add: online_fields worn_fields)
  from reconnect_backoff_and_cap [where s = online and a = "''acc1''" and code = "Some 428"
      and d = plain_deps and w = calm and ops = "[]"
      and i = "\<lparr>socket = Some 0, accountId = ''acc1'', status = CONNECTED,
        reconnectAttempts = 0, lastActivity = 1000\<rparr>"]
    online_instance quiet(1) code(2) low
  have first: "sleeping (fst (handleConnectionUpdate plain_deps ''acc1'' transient calm online)) =
      sleeping online @ [(''acc1'', reconnectDelay * Suc 0)]"
    unfolding code(1) by simp
  note t = reconnect_backoff_and_cap [where s = worn and a = "''acc1''" and code = "Some 428"
      and d = plain_deps and w = calm and ops = "[]"
      and i = "\<lparr>socket = Some 5, accountId = ''acc1'', status = CONNECTED,
        reconnectAttempts = 5, lastActivity = 1000\<rparr>", folded code(1)]
  from t worn_fields(1) quiet(2,3) code(2) high
  have cap: "emitted (fst (handleConnectionUpdate plain_deps ''acc1'' transient calm worn)) =
        emitted worn @ [Disconnected ''acc1'' max_reconnect_attempts]"
    "get_instance (fst (handleConnectionUpdate plain_deps ''acc1'' transient calm worn)) ''acc1'' =
        Some (if dbOk calm then \<lparr>socket = Some 5, accountId = ''acc1'', status = CONNECTED,
            reconnectAttempts = 5, lastActivity = 1000\<rparr>\<lparr>status := DISCONNECTED\<rparr>
          else \<lparr>socket = Some 5, accountId = ''acc1'', status = CONNECTED,
            reconnectAttempts = 5, lastActivity = 1000\<rparr>)"
    "settled ''acc1'' (fst (handleConnectionUpdate plain_deps ''acc1'' transient calm worn))"
    "sockets (fst (handleConnectionUpdate plain_deps ''acc1'' transient calm worn)) = sockets worn"
    by simp_all
  from reconnect_backoff_and_cap [where a = "''acc1''" and d = plain_deps
      and s = "fst (handleConnectionUpdate plain_deps ''acc1'' transient calm worn)"
      and ops = "[ConnectionEvent 4 transient calm, ReconnectWakes 0 calm, ConnectionEvent 5 transient calm]"
      and i = "\<lparr>socket = Some 5, accountId = ''acc1'', status = CONNECTED,
        reconnectAttempts = 5, lastActivity = 1000\<rparr>" and code = None and w = calm]
    cap(3) given_up_undisturbed
  have after: "opened ''acc1'' (run plain_deps
       [ConnectionEvent 4 transient calm, ReconnectWakes 0 calm, ConnectionEvent 5 transient calm]
       (fst (handleConnectionUpdate plain_deps ''acc1'' transient calm worn))) =
     opened ''acc1'' (fst (handleConnectionUpdate plain_deps ''acc1'' transient calm worn))"
    by blast
  have "opened ''acc1'' (fst (handleConnectionUpdate plain_deps ''acc1'' transient calm worn)) = 6"
    using cap(4) worn_fields(6) by (simp add: opened_def)
  with after first cap dbs quiet online_instance show ?thesis
    by (simp add: worn_fields online_fields attempts_def reconnectDelay_def)
qed

text \<open>
  The claim as the spec words it fails in three runs. After five failed reconnects the
  counter of \<^verbatim>\<open>acc1\<close> has reached the maximum, yet the account is not \<^verbatim>\<open>DISCONNECTED\<close> and
  nothing was emitted: the socket of the fifth attempt may still open. When it opens and
  closes again, a reconnect is scheduled after 5000 ms, with no initialisation in
  between. And when the close at the maximum meets a table whose update throws, the
  status stays \<^verbatim>\<open>CONNECTED\<close> although \<^verbatim>\<open>disconnected\<close> is emitted.
\<close>

theorem reconnect_cap_counterexample:
  "attempts worn ''acc1'' = Some maxReconnectAttempts \<and>
   map_option status (get_instance worn ''acc1'') = Some CONNECTED \<and>
   emitted worn = [Connected ''acc1'' (Some ''923009999999:1'')] \<and>
   sleeping (run plain_deps
     [ConnectionEvent 5 open_update calm, ConnectionEvent 5 transient calm] worn) =
     [(''acc1'', 5000)] \<and>
   map_option status (get_instance (run plain_deps
     [ConnectionEvent 5 transient (calm\<lparr>dbOk := False\<rparr>)] worn) ''acc1'') = Some CONNECTED \<and>
   emitted (run plain_deps [ConnectionEvent 5 transient (calm\<lparr>dbOk := False\<rparr>)] worn) =
     [Connected ''acc1'' (Some ''923009999999:1''), Disconnected ''acc1'' max_reconnect_attempts]"
  by (simp add: worn_eq transient_def attempts_def eval_defs)

end
